theory Spec2Isabelle
  imports Complex_Main "HOL-Library.AList"
begin

section \<open>Python strings\<close>

text \<open>
  A Python \<open>str\<close> is a sequence of Unicode code points, and \<open>len\<close> counts code points.
  A string is therefore a list of code points; ASCII literals of the source are written
  through \<open>lit\<close>.
\<close>

type_synonym pystr = "nat list"

definition lit :: "string \<Rightarrow> pystr" where
  "lit s = map of_char s"

text \<open>
  The characters \<open>str.split()\<close> and \<open>str.strip()\<close> treat as whitespace when called
  without an argument: the ASCII controls 9 to 13 and 28 to 31, the space, and the
  Unicode white space beyond ASCII.
\<close>

definition isspace :: "nat \<Rightarrow> bool" where
  "isspace c = ((9 \<le> c \<and> c \<le> 13) \<or> (28 \<le> c \<and> c \<le> 32) \<or> c = 133 \<or> c = 160
      \<or> c = 5760 \<or> (8192 \<le> c \<and> c \<le> 8202) \<or> c = 8232 \<or> c = 8233
      \<or> c = 8239 \<or> c = 8287 \<or> c = 12288)"

definition strip :: "pystr \<Rightarrow> pystr" where
  "strip s = rev (dropWhile isspace (rev (dropWhile isspace s)))"

text \<open>
  \<open>text.split()\<close>: maximal runs of non-whitespace characters, in order; no empty word.
  \<open>split_from cur s\<close> scans \<open>s\<close> with the word read so far in \<open>cur\<close>.
\<close>

fun split_from :: "pystr \<Rightarrow> pystr \<Rightarrow> pystr list" where
  "split_from cur [] = (if cur = [] then [] else [cur])"
| "split_from cur (c # s) =
     (if isspace c then (if cur = [] then split_from [] s else cur # split_from [] s)
      else split_from (cur @ [c]) s)"

definition split :: "pystr \<Rightarrow> pystr list" where
  "split s = split_from [] s"

text \<open>\<open>sep.join(ws)\<close>.\<close>

fun join :: "pystr \<Rightarrow> pystr list \<Rightarrow> pystr" where
  "join sep [] = []"
| "join sep [w] = w"
| "join sep (w # v # ws) = w @ sep @ join sep (v # ws)"

text \<open>\<open>str(i)\<close> of an integer, as an f-string prints it: decimal digits, a minus sign first.\<close>

fun str_nat :: "nat \<Rightarrow> pystr" where
  "str_nat n = (if n < 10 then [48 + n] else str_nat (n div 10) @ [48 + n mod 10])"

definition str_int :: "int \<Rightarrow> pystr" where
  "str_int i = (if i < 0 then 45 # str_nat (nat (- i)) else str_nat (nat i))"

text \<open>
  \<open>s.replace(old, new)\<close>, every occurrence from the left; \<open>sub in s\<close>.
\<close>

function replace :: "pystr \<Rightarrow> pystr \<Rightarrow> pystr \<Rightarrow> pystr" where
  "replace old new s =
     (if old = [] then new @ concat (map (\<lambda>c. c # new) s)
      else if s = [] then []
      else if take (length old) s = old then new @ replace old new (drop (length old) s)
      else hd s # replace old new (tl s))"
  by pat_completeness auto
termination
  by (relation "measure (\<lambda>(old, new, s). length s)") auto

fun contains :: "pystr \<Rightarrow> pystr \<Rightarrow> bool" where
  "contains sub [] = (sub = [])"
| "contains sub (c # s) = (take (length sub) (c # s) = sub \<or> contains sub s)"

section \<open>Python exceptions, ranges and slices\<close>

datatype exn =
    ValueError pystr
  | KeyError pystr
  | IndexError pystr
  | UnicodeDecodeError pystr
  | ProviderError pystr
  | HTTPException int pystr

text \<open>\<open>range(start, stop, step)\<close> as the list of its elements; a zero step raises.\<close>

function range_up :: "int \<Rightarrow> int \<Rightarrow> int \<Rightarrow> int list" where
  "range_up i stop step =
     (if 0 < step \<and> i < stop then i # range_up (i + step) stop step else [])"
  by pat_completeness auto
termination
  by (relation "measure (\<lambda>(i, stop, step). nat (stop - i))") auto

function range_down :: "int \<Rightarrow> int \<Rightarrow> int \<Rightarrow> int list" where
  "range_down i stop step =
     (if step < 0 \<and> stop < i then i # range_down (i + step) stop step else [])"
  by pat_completeness auto
termination
  by (relation "measure (\<lambda>(i, stop, step). nat (i - stop))") auto

definition py_range :: "int \<Rightarrow> int \<Rightarrow> int \<Rightarrow> exn + int list" where
  "py_range start stop step =
     (if step = 0 then Inl (ValueError (lit ''range() arg 3 must not be zero''))
      else if 0 < step then Inr (range_up start stop step)
      else Inr (range_down start stop step))"

text \<open>
  \<open>xs[i:j]\<close>: a negative bound counts from the end, and both bounds are clamped to
  the list; an empty or inverted window gives the empty list.
\<close>

definition slice_bound :: "nat \<Rightarrow> int \<Rightarrow> nat" where
  "slice_bound n i = (if i < 0 then nat (int n + i) else min n (nat i))"

definition py_slice :: "'a list \<Rightarrow> int \<Rightarrow> int \<Rightarrow> 'a list" where
  "py_slice xs i j =
     (let lo = slice_bound (length xs) i; hi = slice_bound (length xs) j
      in take (hi - lo) (drop lo xs))"

section \<open>The chunker\<close>

text \<open>
  \<open>RAGService.chunk_text\<close>: the loop body for the start positions of the range, with
  the list \<open>chunks\<close> passed along.
\<close>

fun chunk_loop :: "pystr list \<Rightarrow> int \<Rightarrow> int list \<Rightarrow> pystr list \<Rightarrow> pystr list" where
  "chunk_loop words chunk_size [] chunks = chunks"
| "chunk_loop words chunk_size (i # rest) chunks =
     (let chunk = join (lit '' '') (py_slice words i (i + chunk_size))
      in chunk_loop words chunk_size rest
           (if 0 < length (strip chunk) then chunks @ [chunk] else chunks))"

definition chunk_text :: "pystr \<Rightarrow> int \<Rightarrow> int \<Rightarrow> exn + pystr list" where
  "chunk_text text chunk_size overlap =
     (let words = split text
      in case py_range 0 (int (length words)) (chunk_size - overlap) of
           Inl e \<Rightarrow> Inl e
         | Inr starts \<Rightarrow> Inr (chunk_loop words chunk_size starts []))"


section \<open>The chunker of the RAG engineer agent\<close>

text \<open>
  \<open>RAGEngineerAgent.chunk_text\<close>, the other chunker of the repository: a \<open>while\<close> loop
  that takes the window from \<open>start\<close>, and goes on from \<open>end - overlap\<close> until a window
  reaches the last word. The loop need not end, so its result is an option. The MD5 digest
  of a chunk is a parameter.
\<close>

record agent_chunk =
  ac_chunk_id :: int
  ac_text :: pystr
  ac_start_word :: int
  ac_end_word :: int
  ac_word_count :: int
  ac_hash :: pystr

definition agent_chunk_end :: "pystr list \<Rightarrow> int \<Rightarrow> int \<Rightarrow> int" where
  "agent_chunk_end words chunk_size start = min (start + chunk_size) (int (length words))"

definition make_agent_chunk ::
  "(pystr \<Rightarrow> pystr) \<Rightarrow> pystr list \<Rightarrow> int \<Rightarrow> int \<Rightarrow> int \<Rightarrow> agent_chunk" where
  "make_agent_chunk md5_hex words chunk_id start end_word =
     (let chunk_text = join (lit '' '') (py_slice words start end_word)
      in \<lparr>ac_chunk_id = chunk_id, ac_text = chunk_text, ac_start_word = start,
          ac_end_word = end_word, ac_word_count = end_word - start,
          ac_hash = md5_hex chunk_text\<rparr>)"

partial_function (option) agent_chunk_loop ::
  "(pystr \<Rightarrow> pystr) \<Rightarrow> pystr list \<Rightarrow> int \<Rightarrow> int \<Rightarrow> int \<Rightarrow> int \<Rightarrow> agent_chunk list
   \<Rightarrow> agent_chunk list option" where
  "agent_chunk_loop md5_hex words chunk_size overlap start chunk_id chunks =
     (if start < int (length words) then
        agent_chunk_loop md5_hex words chunk_size overlap
          (if agent_chunk_end words chunk_size start < int (length words)
           then agent_chunk_end words chunk_size start - overlap
           else agent_chunk_end words chunk_size start)
          (chunk_id + 1)
          (chunks @ [make_agent_chunk md5_hex words chunk_id start
                       (agent_chunk_end words chunk_size start)])
      else Some chunks)"

definition agent_chunk_text ::
  "(pystr \<Rightarrow> pystr) \<Rightarrow> pystr \<Rightarrow> int \<Rightarrow> int \<Rightarrow> agent_chunk list option" where
  "agent_chunk_text md5_hex s chunk_size overlap =
     agent_chunk_loop md5_hex (split s) chunk_size overlap 0 0 []"

text \<open>
  A word is what \<open>split\<close> returns: not empty and free of whitespace. A window is the
  slice of the word list one chunk is joined from.
\<close>

definition is_word :: "pystr \<Rightarrow> bool" where
  "is_word w = (w \<noteq> [] \<and> list_all (\<lambda>c. \<not> isspace c) w)"

definition window :: "pystr list \<Rightarrow> int \<Rightarrow> int \<Rightarrow> nat \<Rightarrow> pystr list" where
  "window words chunk_size step k = take (nat chunk_size) (drop (k * nat step) words)"

section \<open>The services around the pipeline\<close>

text \<open>
  The vector store, the embedding and chat providers, the clock and the file system are
  outside the repository. The collection is an association list from point id to point,
  absent until it is created; the providers are functions that may raise; the clock is
  a counter that every \<open>datetime.utcnow()\<close> advances.
\<close>

type_synonym vector = "real list"

record payload =
  p_text :: "pystr option"
  p_doc_id :: "pystr option"
  p_title :: "pystr option"
  p_url :: "pystr option"
  p_chapter :: "pystr option"
  p_chunk_index :: "int option"
  p_indexed_at :: "pystr option"

record point =
  point_id :: pystr
  point_vector :: vector
  point_payload :: payload

record scored_point =
  sp_score :: real
  sp_payload :: payload

text \<open>One item of a streamed completion: the \<open>delta.content\<close> of each of its choices.\<close>

type_synonym stream_chunk = "pystr option list"

text \<open>\<open>Settings\<close> of \<open>app/config/settings.py\<close>, the indexing part.\<close>

record settings =
  cfg_chunk_size :: int
  cfg_chunk_overlap :: int

definition default_settings :: settings where
  "default_settings = \<lparr>cfg_chunk_size = 800, cfg_chunk_overlap = 100\<rparr>"

text \<open>A markdown file as \<open>rglob\<close> finds it, with the result of reading it.\<close>

record md_file =
  file_name :: pystr
  file_stem :: pystr
  file_parts :: "pystr list"
  file_relative :: pystr
  file_read :: "exn + pystr"

record env =
  env_settings :: settings
  embeddings_create :: "pystr \<Rightarrow> exn + vector"
  qdrant_search ::
    "(pystr \<times> point) list \<Rightarrow> vector \<Rightarrow> int \<Rightarrow> real \<Rightarrow> pystr option \<Rightarrow> exn + scored_point list"
  completions_create :: "pystr \<Rightarrow> pystr \<Rightarrow> exn + pystr"
  completions_stream :: "pystr \<Rightarrow> pystr \<Rightarrow> exn + (stream_chunk list \<times> exn option)"
  isoformat :: "nat \<Rightarrow> pystr"
  format_2f :: "real \<Rightarrow> pystr"
  str_lower :: "pystr \<Rightarrow> pystr"
  str_title :: "pystr \<Rightarrow> pystr"
  system_prompt :: pystr
  model_name :: pystr
  temperature :: real
  rglob_md :: "pystr \<Rightarrow> md_file list option"

record world =
  collection :: "(pystr \<times> point) list option"
  clock :: nat

definition utcnow :: "world \<Rightarrow> nat \<times> world" where
  "utcnow w = (clock w, w\<lparr>clock := Suc (clock w)\<rparr>)"

text \<open>\<open>str(e)\<close> of a caught exception.\<close>

fun str_exn :: "exn \<Rightarrow> pystr" where
  "str_exn (ValueError m) = m"
| "str_exn (KeyError k) = lit [CHR 0x27] @ k @ lit [CHR 0x27]"
| "str_exn (IndexError m) = m"
| "str_exn (UnicodeDecodeError m) = m"
| "str_exn (ProviderError m) = m"
| "str_exn (HTTPException code detail) = str_int code @ lit '': '' @ detail"

section \<open>RAGService\<close>

definition ensure_collection_exists :: "world \<Rightarrow> world" where
  "ensure_collection_exists w =
     (case collection w of None \<Rightarrow> w\<lparr>collection := Some []\<rparr> | Some c \<Rightarrow> w)"

definition create_embedding :: "env \<Rightarrow> pystr \<Rightarrow> exn + vector" where
  "create_embedding E t = embeddings_create E t"

text \<open>
  The store takes an unsigned integer or a UUID as a point id, nothing else. A string id
  is read as \<open>uuid.UUID\<close> reads it: \<open>urn:\<close> and \<open>uuid:\<close> are removed, then braces at
  both ends, then hyphens, and 32 hexadecimal digits must remain.
\<close>

definition is_hex_digit :: "nat \<Rightarrow> bool" where
  "is_hex_digit c = ((48 \<le> c \<and> c \<le> 57) \<or> (65 \<le> c \<and> c \<le> 70) \<or> (97 \<le> c \<and> c \<le> 102))"

definition strip_chars :: "pystr \<Rightarrow> pystr \<Rightarrow> pystr" where
  "strip_chars cs s =
     rev (dropWhile (\<lambda>c. c \<in> set cs) (rev (dropWhile (\<lambda>c. c \<in> set cs) s)))"

definition is_uuid :: "pystr \<Rightarrow> bool" where
  "is_uuid s =
     (let h = replace (lit ''-'') []
                (strip_chars (lit ''{}'')
                   (replace (lit ''uuid:'') [] (replace (lit ''urn:'') [] s)))
      in length h = 32 \<and> list_all is_hex_digit h)"

text \<open>
  \<open>qdrant.upsert\<close>: insert or replace, keyed by the point id. A batch with a string id
  that is no UUID is refused with an exception and nothing is stored.
\<close>

definition qdrant_upsert :: "point list \<Rightarrow> world \<Rightarrow> (exn + unit) \<times> world" where
  "qdrant_upsert points w =
     (case collection w of
        None \<Rightarrow> (Inl (ValueError (lit ''Collection book_chunks not found'')), w)
      | Some c \<Rightarrow>
          (case find (\<lambda>p. \<not> is_uuid (point_id p)) points of
             Some p \<Rightarrow>
               (Inl (ValueError (lit ''Point id '' @ point_id p @ lit '' is not a valid UUID'')),
                w)
           | None \<Rightarrow>
               (Inr (),
                w\<lparr>collection := Some (fold (\<lambda>p. AList.update (point_id p) p) points c)\<rparr>)))"

text \<open>\<open>chapter or "Main"\<close>.\<close>

definition chapter_or_main :: "pystr option \<Rightarrow> pystr" where
  "chapter_or_main chapter =
     (case chapter of None \<Rightarrow> lit ''Main'' | Some c \<Rightarrow> if c = [] then lit ''Main'' else c)"

text \<open>
  The loop of \<open>index_document\<close> over \<open>enumerate(chunks)\<close>: one embedding call and one
  point per chunk; an exception of the embedding call leaves the loop.
\<close>

definition make_point ::
  "env \<Rightarrow> pystr \<Rightarrow> pystr \<Rightarrow> pystr \<Rightarrow> pystr option \<Rightarrow> nat \<Rightarrow> pystr \<Rightarrow> vector \<Rightarrow> nat
   \<Rightarrow> point" where
  "make_point E doc_id title url chapter i chunk embedding now =
     \<lparr>point_id = doc_id @ lit ''_chunk_'' @ str_nat i,
      point_vector = embedding,
      point_payload = \<lparr>p_text = Some chunk, p_doc_id = Some doc_id,
        p_title = Some title, p_url = Some url,
        p_chapter = Some (chapter_or_main chapter),
        p_chunk_index = Some (int i),
        p_indexed_at = Some (isoformat E now)\<rparr>\<rparr>"

fun build_points ::
  "env \<Rightarrow> pystr \<Rightarrow> pystr \<Rightarrow> pystr \<Rightarrow> pystr option \<Rightarrow> nat \<Rightarrow> pystr list \<Rightarrow> point list \<Rightarrow> world
   \<Rightarrow> (exn + point list) \<times> world" where
  "build_points E doc_id title url chapter i [] points w = (Inr points, w)"
| "build_points E doc_id title url chapter i (chunk # rest) points w =
     (case create_embedding E chunk of
        Inl e \<Rightarrow> (Inl e, w)
      | Inr embedding \<Rightarrow>
          (let (now, w') = utcnow w;
               point = make_point E doc_id title url chapter i chunk embedding now
           in build_points E doc_id title url chapter (Suc i) rest (points @ [point]) w'))"

definition index_document ::
  "env \<Rightarrow> world \<Rightarrow> pystr \<Rightarrow> pystr \<Rightarrow> pystr \<Rightarrow> pystr \<Rightarrow> pystr option \<Rightarrow> (exn + nat) \<times> world" where
  "index_document E w doc_id title content url chapter =
     (let w1 = ensure_collection_exists w
      in case chunk_text content 500 100 of
           Inl e \<Rightarrow> (Inl e, w1)
         | Inr chunks \<Rightarrow>
             (case build_points E doc_id title url chapter 0 chunks [] w1 of
                (Inl e, w2) \<Rightarrow> (Inl e, w2)
              | (Inr points, w2) \<Rightarrow>
                  (case qdrant_upsert points w2 of
                     (Inl e, w3) \<Rightarrow> (Inl e, w3)
                   | (Inr u, w3) \<Rightarrow> (Inr (length chunks), w3))))"

text \<open>A formatted search result; the pinned selected text has no \<open>chunk_index\<close>.\<close>

record context_chunk =
  c_text :: pystr
  c_title :: pystr
  c_url :: pystr
  c_chapter :: pystr
  c_score :: real
  c_chunk_index :: "int option"

definition payload_get :: "string \<Rightarrow> pystr option \<Rightarrow> exn + pystr" where
  "payload_get key v = (case v of None \<Rightarrow> Inl (KeyError (lit key)) | Some x \<Rightarrow> Inr x)"

definition format_result :: "scored_point \<Rightarrow> exn + context_chunk" where
  "format_result result =
     (case payload_get ''text'' (p_text (sp_payload result)) of Inl e \<Rightarrow> Inl e | Inr t \<Rightarrow>
      case payload_get ''title'' (p_title (sp_payload result)) of Inl e \<Rightarrow> Inl e | Inr ti \<Rightarrow>
      case payload_get ''url'' (p_url (sp_payload result)) of Inl e \<Rightarrow> Inl e | Inr u \<Rightarrow>
      case payload_get ''chapter'' (p_chapter (sp_payload result)) of Inl e \<Rightarrow> Inl e | Inr ch \<Rightarrow>
        Inr \<lparr>c_text = t, c_title = ti, c_url = u, c_chapter = ch, c_score = sp_score result,
             c_chunk_index =
               Some (case p_chunk_index (sp_payload result) of None \<Rightarrow> 0 | Some i \<Rightarrow> i)\<rparr>)"

fun format_results :: "scored_point list \<Rightarrow> context_chunk list \<Rightarrow> exn + context_chunk list" where
  "format_results [] formatted_results = Inr formatted_results"
| "format_results (result # rest) formatted_results =
     (case format_result result of
        Inl e \<Rightarrow> Inl e
      | Inr r \<Rightarrow> format_results rest (formatted_results @ [r]))"

definition search_filter :: "pystr option \<Rightarrow> pystr option" where
  "search_filter chapter_filter =
     (case chapter_filter of None \<Rightarrow> None | Some c \<Rightarrow> if c = [] then None else Some c)"

definition search_similar ::
  "env \<Rightarrow> world \<Rightarrow> pystr \<Rightarrow> int \<Rightarrow> real \<Rightarrow> pystr option \<Rightarrow> (exn + context_chunk list) \<times> world" where
  "search_similar E w query limit score_threshold chapter_filter =
     (let w1 = ensure_collection_exists w
      in case create_embedding E query of
           Inl e \<Rightarrow> (Inl e, w1)
         | Inr query_embedding \<Rightarrow>
             (case qdrant_search E (case collection w1 of None \<Rightarrow> [] | Some c \<Rightarrow> c) query_embedding limit
                     score_threshold (search_filter chapter_filter) of
                Inl e \<Rightarrow> (Inl e, w1)
              | Inr results \<Rightarrow> (format_results results [], w1)))"

section \<open>AgentService\<close>

definition nl :: pystr where
  "nl = [10]"

text \<open>One block of \<open>create_rag_prompt\<close>; \<open>i\<close> counts from 0 as \<open>enumerate\<close> does.\<close>

definition context_part :: "env \<Rightarrow> nat \<Rightarrow> context_chunk \<Rightarrow> pystr" where
  "context_part E i chunk =
     lit ''--- Context '' @ str_nat (i + 1) @ lit '' ---'' @ nl
     @ lit ''**Title**: '' @ c_title chunk @ lit '' ('' @ c_chapter chunk @ lit '')'' @ nl
     @ lit ''**URL**: '' @ c_url chunk @ nl
     @ lit ''**Relevance**: '' @ format_2f E (c_score chunk) @ nl
     @ nl @ c_text chunk @ nl"

fun context_parts :: "env \<Rightarrow> nat \<Rightarrow> context_chunk list \<Rightarrow> pystr list" where
  "context_parts E i [] = []"
| "context_parts E i (chunk # rest) = context_part E i chunk # context_parts E (Suc i) rest"

definition create_rag_prompt :: "env \<Rightarrow> pystr \<Rightarrow> context_chunk list \<Rightarrow> pystr" where
  "create_rag_prompt E question context_chunks =
     (let context_text = join (nl @ nl) (context_parts E 0 context_chunks)
      in lit ''Based on the following context from the book, please answer the question.''
         @ nl @ nl @ lit ''Context:'' @ nl @ context_text @ nl @ nl
         @ lit ''Question: '' @ question @ nl @ nl
         @ lit ''Please provide a comprehensive answer based on the context above. ''
         @ lit ''Include citations to the source sections.'')"

text \<open>
  \<open>_stream_response\<close>: the fragments yielded before the stream ends or raises, and the
  exception that ended it, if any. The provider's stream is the items it delivers and
  the failure that follows them, if any.
\<close>

fun stream_response :: "stream_chunk list \<Rightarrow> exn option \<Rightarrow> pystr list \<times> exn option" where
  "stream_response [] failure = ([], failure)"
| "stream_response ([] # rest) failure =
     ([], Some (IndexError (lit ''list index out of range'')))"
| "stream_response ((content # choices) # rest) failure =
     (case content of
        None \<Rightarrow> stream_response rest failure
      | Some c \<Rightarrow>
          if c = [] then stream_response rest failure
          else (c # fst (stream_response rest failure), snd (stream_response rest failure)))"

text \<open>\<open>generate_response\<close>, once for each value of \<open>stream\<close>.\<close>

definition generate_response :: "env \<Rightarrow> pystr \<Rightarrow> context_chunk list \<Rightarrow> exn + pystr" where
  "generate_response E question context_chunks =
     completions_create E (system_prompt E) (create_rag_prompt E question context_chunks)"

definition generate_response_stream ::
  "env \<Rightarrow> pystr \<Rightarrow> context_chunk list \<Rightarrow> exn + (pystr list \<times> exn option)" where
  "generate_response_stream E question context_chunks =
     (case completions_stream E (system_prompt E) (create_rag_prompt E question context_chunks) of
        Inl e \<Rightarrow> Inl e
      | Inr (items, failure) \<Rightarrow> Inr (stream_response items failure))"

record source_dict =
  s_title :: pystr
  s_url :: pystr
  s_chapter :: pystr
  s_relevance_score :: real

record metadata =
  m_model :: pystr
  m_temperature :: real
  m_prompt_tokens :: real
  m_completion_tokens :: real
  m_total_tokens :: real
  m_timestamp :: pystr

record response_with_metadata =
  r_answer :: pystr
  r_sources :: "source_dict list"
  r_metadata :: metadata

definition source_of :: "context_chunk \<Rightarrow> source_dict" where
  "source_of chunk =
     \<lparr>s_title = c_title chunk, s_url = c_url chunk, s_chapter = c_chapter chunk,
      s_relevance_score = c_score chunk\<rparr>"

definition generate_response_with_metadata ::
  "env \<Rightarrow> world \<Rightarrow> pystr \<Rightarrow> context_chunk list \<Rightarrow> (exn + response_with_metadata) \<times> world" where
  "generate_response_with_metadata E w question context_chunks =
     (case generate_response E question context_chunks of
        Inl e \<Rightarrow> (Inl e, w)
      | Inr answer \<Rightarrow>
          (let sources = map source_of context_chunks;
               prompt_tokens = sum_list (map (\<lambda>chunk. length (split (c_text chunk))) context_chunks)
                                 + length (split question);
               completion_tokens = length (split answer);
               (now, w') = utcnow w
           in (Inr \<lparr>r_answer = answer, r_sources = sources,
                     r_metadata = \<lparr>m_model = model_name E, m_temperature = temperature E,
                       m_prompt_tokens = real prompt_tokens * 1.3,
                       m_completion_tokens = real completion_tokens * 1.3,
                       m_total_tokens = real (prompt_tokens + completion_tokens) * 1.3,
                       m_timestamp = isoformat E now\<rparr>\<rparr>, w')))"

section \<open>The chat routes\<close>

record chat_request =
  req_question :: pystr
  req_top_k :: int
  req_chapter_filter :: "pystr option"

record source =
  page_title :: pystr
  page_url :: pystr
  section_name :: pystr
  relevance_score :: real

record chat_response =
  answer :: pystr
  sources :: "source list"

definition to_source :: "source_dict \<Rightarrow> source" where
  "to_source src =
     \<lparr>page_title = s_title src, page_url = s_url src, section_name = s_chapter src,
      relevance_score = s_relevance_score src\<rparr>"

text \<open>
  \<open>chat\<close>: the body of the \<open>try\<close> block, then the handler \<open>except Exception\<close> around
  it. \<open>HTTPException\<close> is an \<open>Exception\<close>, so the handler receives whatever the body
  raises.
\<close>

definition chat_try :: "env \<Rightarrow> world \<Rightarrow> chat_request \<Rightarrow> (exn + chat_response) \<times> world" where
  "chat_try E w request =
     (case search_similar E w (req_question request) (req_top_k request) 0.5
             (req_chapter_filter request) of
        (Inl e, w1) \<Rightarrow> (Inl e, w1)
      | (Inr context_chunks, w1) \<Rightarrow>
          if context_chunks = [] then
            (Inl (HTTPException 404
               (lit ''No relevant content found. The book may not be indexed yet.'')), w1)
          else
            (case generate_response_with_metadata E w1 (req_question request) context_chunks of
               (Inl e, w2) \<Rightarrow> (Inl e, w2)
             | (Inr result, w2) \<Rightarrow>
                 (Inr \<lparr>answer = r_answer result,
                       sources = map to_source (r_sources result)\<rparr>, w2)))"

definition chat :: "env \<Rightarrow> world \<Rightarrow> chat_request \<Rightarrow> (exn + chat_response) \<times> world" where
  "chat E w request =
     (case chat_try E w request of
        (Inl e, w') \<Rightarrow>
          (Inl (HTTPException 500 (lit ''Error processing request: '' @ str_exn e)), w')
      | (Inr response, w') \<Rightarrow> (Inr response, w'))"

text \<open>The events of the stream, as the JSON objects \<open>generate\<close> yields.\<close>

datatype event =
    TokenEvent pystr
  | SourcesEvent "source list"
  | DoneEvent
  | ErrorEvent pystr

definition stream_source :: "context_chunk \<Rightarrow> source" where
  "stream_source chunk =
     \<lparr>page_title = c_title chunk, page_url = c_url chunk, section_name = c_chapter chunk,
      relevance_score = c_score chunk\<rparr>"

text \<open>
  \<open>chat_stream.generate\<close>: the events in the order they are yielded. An exception
  anywhere in the \<open>try\<close> block ends what was being yielded and the handler yields one
  error event.
\<close>

definition generate :: "env \<Rightarrow> world \<Rightarrow> chat_request \<Rightarrow> event list \<times> world" where
  "generate E w request =
     (case search_similar E w (req_question request) (req_top_k request) 0.5
             (req_chapter_filter request) of
        (Inl e, w1) \<Rightarrow> ([ErrorEvent (str_exn e)], w1)
      | (Inr context_chunks, w1) \<Rightarrow>
          if context_chunks = [] then ([ErrorEvent (lit ''No relevant content found'')], w1)
          else
            (case generate_response_stream E (req_question request) context_chunks of
               Inl e \<Rightarrow> ([ErrorEvent (str_exn e)], w1)
             | Inr (tokens, failure) \<Rightarrow>
                 (case failure of
                    Some e \<Rightarrow> (map TokenEvent tokens @ [ErrorEvent (str_exn e)], w1)
                  | None \<Rightarrow>
                      (map TokenEvent tokens
                       @ [SourcesEvent (map stream_source context_chunks), DoneEvent], w1))))"

text \<open>\<open>chat_with_selected_text\<close>: the pinned entry, the list handed on, the route.\<close>

definition selected_context :: "pystr \<Rightarrow> pystr \<Rightarrow> context_chunk" where
  "selected_context selected_text page_url' =
     \<lparr>c_text = selected_text, c_title = lit ''Selected Text'', c_url = page_url',
      c_chapter = lit ''User Selection'', c_score = 1.0, c_chunk_index = None\<rparr>"

definition all_context :: "pystr \<Rightarrow> pystr \<Rightarrow> context_chunk list \<Rightarrow> context_chunk list" where
  "all_context selected_text page_url' context_chunks =
     [selected_context selected_text page_url'] @ context_chunks"

definition chat_with_selected_text_try ::
  "env \<Rightarrow> world \<Rightarrow> pystr \<Rightarrow> pystr \<Rightarrow> pystr \<Rightarrow> (exn + chat_response) \<times> world" where
  "chat_with_selected_text_try E w question selected_text page_url' =
     (case search_similar E w question 2 0.5 None of
        (Inl e, w1) \<Rightarrow> (Inl e, w1)
      | (Inr context_chunks, w1) \<Rightarrow>
          (case generate_response_with_metadata E w1 question
                  (all_context selected_text page_url' context_chunks) of
             (Inl e, w2) \<Rightarrow> (Inl e, w2)
           | (Inr result, w2) \<Rightarrow>
               (Inr \<lparr>answer = r_answer result,
                     sources = map to_source (r_sources result)\<rparr>, w2)))"

definition chat_with_selected_text ::
  "env \<Rightarrow> world \<Rightarrow> pystr \<Rightarrow> pystr \<Rightarrow> pystr \<Rightarrow> (exn + chat_response) \<times> world" where
  "chat_with_selected_text E w question selected_text page_url' =
     (case chat_with_selected_text_try E w question selected_text page_url' of
        (Inl e, w') \<Rightarrow>
          (Inl (HTTPException 500 (lit ''Error processing request: '' @ str_exn e)), w')
      | (Inr response, w') \<Rightarrow> (Inr response, w'))"

section \<open>Re-indexing: the admin route and the script\<close>

text \<open>
  The chapter of a file: the first path part with \<open>chapter\<close> in its lower-cased text,
  \<open>Introduction\<close> when there is none.
\<close>

fun find_chapter :: "env \<Rightarrow> pystr list \<Rightarrow> pystr" where
  "find_chapter E [] = lit ''Introduction''"
| "find_chapter E (part # parts) =
     (if contains (lit ''chapter'') (str_lower E part)
      then str_title E (replace (lit ''-'') (lit '' '') part)
      else find_chapter E parts)"

text \<open>
  The lines both loops share once a file is read: title, URL path, chapter and document
  id from the path, then \<open>index_document\<close>.
\<close>

definition index_markdown :: "env \<Rightarrow> world \<Rightarrow> md_file \<Rightarrow> pystr \<Rightarrow> (exn + nat) \<times> world" where
  "index_markdown E w md_file content =
     (let title = str_title E (replace (lit ''-'') (lit '' '') (file_stem md_file));
          url_path = replace (lit ''.md'') []
                       (replace [92] (lit ''/'') (file_relative md_file));
          chapter = find_chapter E (file_parts md_file);
          doc_id = file_stem md_file
      in index_document E w doc_id title content (lit ''/'' @ url_path) (Some chapter))"

text \<open>
  \<open>perform_indexing\<close> of the route: the \<open>try\<close> body for one file, and the loop; an
  exception is printed and the loop continues with the next file.
\<close>

definition index_one :: "env \<Rightarrow> world \<Rightarrow> md_file \<Rightarrow> (exn + nat) \<times> world" where
  "index_one E w md_file =
     (case file_read md_file of
        Inl e \<Rightarrow> (Inl e, w)
      | Inr content \<Rightarrow> index_markdown E w md_file content)"

fun perform_indexing_loop ::
  "env \<Rightarrow> md_file list \<Rightarrow> nat \<Rightarrow> (pystr \<times> nat) list \<Rightarrow> world
   \<Rightarrow> (nat \<times> (pystr \<times> nat) list) \<times> world" where
  "perform_indexing_loop E [] total_chunks indexed_files w = ((total_chunks, indexed_files), w)"
| "perform_indexing_loop E (md_file # rest) total_chunks indexed_files w =
     (case index_one E w md_file of
        (Inl e, w') \<Rightarrow> perform_indexing_loop E rest total_chunks indexed_files w'
      | (Inr chunks_indexed, w') \<Rightarrow>
          perform_indexing_loop E rest (total_chunks + chunks_indexed)
            (indexed_files @ [(file_name md_file, chunks_indexed)]) w')"

definition perform_indexing ::
  "env \<Rightarrow> world \<Rightarrow> md_file list \<Rightarrow> (nat \<times> (pystr \<times> nat) list) \<times> world" where
  "perform_indexing E w md_files = perform_indexing_loop E md_files 0 [] w"

record reindex_request =
  req_docs_path :: "pystr option"
  req_background :: bool

record reindex_response =
  status :: pystr
  message :: pystr
  indexed_count :: nat
  failed_count :: nat
  details :: "(pystr \<times> nat) list option"

text \<open>\<open>request.docs_path or Path("../book/docs")\<close>.\<close>

definition book_docs_path :: "reindex_request \<Rightarrow> pystr" where
  "book_docs_path request =
     (case req_docs_path request of
        None \<Rightarrow> lit ''../book/docs''
      | Some p \<Rightarrow> if p = [] then lit ''../book/docs'' else p)"

text \<open>
  \<open>reindex_content\<close>: the \<open>try\<close> body and the handler around it. A background task is
  detached: the route answers at once, and the world is the one the task leaves.
\<close>

definition reindex_content_try ::
  "env \<Rightarrow> world \<Rightarrow> reindex_request \<Rightarrow> (exn + reindex_response) \<times> world" where
  "reindex_content_try E w request =
     (case rglob_md E (book_docs_path request) of
        None \<Rightarrow>
          (Inl (HTTPException 404
             (lit ''Documentation path not found: '' @ book_docs_path request)), w)
      | Some md_files \<Rightarrow>
          if req_background request then
            (Inr \<lparr>status = lit ''started'', message = lit ''Indexing started in background'',
                  indexed_count = 0, failed_count = 0, details = None\<rparr>,
             snd (perform_indexing E w md_files))
          else
            (case perform_indexing E w md_files of
               ((total_chunks, indexed_files), w') \<Rightarrow>
                 (Inr \<lparr>status = lit ''completed'',
                       message = lit ''Successfully indexed '' @ str_nat (length indexed_files)
                         @ lit '' files with '' @ str_nat total_chunks @ lit '' chunks'',
                       indexed_count = length indexed_files, failed_count = 0,
                       details = Some indexed_files\<rparr>, w')))"

definition reindex_content ::
  "env \<Rightarrow> world \<Rightarrow> reindex_request \<Rightarrow> (exn + reindex_response) \<times> world" where
  "reindex_content E w request =
     (case reindex_content_try E w request of
        (Inl e, w') \<Rightarrow>
          (Inl (HTTPException 500 (lit ''Error during re-indexing: '' @ str_exn e)), w')
      | (Inr response, w') \<Rightarrow> (Inr response, w'))"

text \<open>
  The script \<open>index_book_content\<close>. What it prints for each file is its only report:
  the file's name, then that it was skipped, indexed or failed.
\<close>

datatype script_line =
    Processing pystr
  | SkippedTooShort
  | IndexedChunks nat
  | ErrorLine pystr

fun index_book_loop ::
  "env \<Rightarrow> md_file list \<Rightarrow> nat \<Rightarrow> nat \<Rightarrow> script_line list \<Rightarrow> world
   \<Rightarrow> (nat \<times> nat \<times> script_line list) \<times> world" where
  "index_book_loop E [] total_chunks indexed_files printed w =
     ((total_chunks, indexed_files, printed), w)"
| "index_book_loop E (md_file # rest) total_chunks indexed_files printed w =
     (case file_read md_file of
        Inl e \<Rightarrow>
          index_book_loop E rest total_chunks indexed_files
            (printed @ [Processing (file_name md_file), ErrorLine (str_exn e)]) w
      | Inr content \<Rightarrow>
          if length (strip content) < 100 then
            index_book_loop E rest total_chunks indexed_files
              (printed @ [Processing (file_name md_file), SkippedTooShort]) w
          else
            (case index_markdown E w md_file content of
               (Inl e, w') \<Rightarrow>
                 index_book_loop E rest total_chunks indexed_files
                   (printed @ [Processing (file_name md_file), ErrorLine (str_exn e)]) w'
             | (Inr chunks_indexed, w') \<Rightarrow>
                 index_book_loop E rest (total_chunks + chunks_indexed) (indexed_files + 1)
                   (printed @ [Processing (file_name md_file), IndexedChunks chunks_indexed])
                   w'))"

datatype script_outcome =
    PathNotFound
  | Complete nat nat nat "script_line list"

text \<open>\<open>Complete\<close>: files indexed, files found, total chunks, the lines printed.\<close>

definition index_book_content :: "env \<Rightarrow> world \<Rightarrow> pystr \<Rightarrow> script_outcome \<times> world" where
  "index_book_content E w docs_path =
     (let w1 = ensure_collection_exists w
      in case rglob_md E docs_path of
           None \<Rightarrow> (PathNotFound, w1)
         | Some md_files \<Rightarrow>
             (case index_book_loop E md_files 0 0 [] w1 of
                ((total_chunks, indexed_files, printed), w') \<Rightarrow>
                  (Complete indexed_files (length md_files) total_chunks printed, w')))"

section \<open>Properties of event streams and search results\<close>

text \<open>
  The order of a stream: tokens, then at most one sources event, then at most one done
  event; an error event may come at any point and nothing may follow it.
\<close>

datatype phase = Streaming | SourcesSent | Finished | Failed

fun next_phase :: "phase \<Rightarrow> event \<Rightarrow> phase option" where
  "next_phase Failed e = None"
| "next_phase p (ErrorEvent m) = Some Failed"
| "next_phase Streaming (TokenEvent t) = Some Streaming"
| "next_phase Streaming (SourcesEvent s) = Some SourcesSent"
| "next_phase Streaming DoneEvent = Some Finished"
| "next_phase SourcesSent DoneEvent = Some Finished"
| "next_phase p e = None"

fun accepts :: "phase \<Rightarrow> event list \<Rightarrow> bool" where
  "accepts p [] = True"
| "accepts p (e # es) = (case next_phase p e of None \<Rightarrow> False | Some q \<Rightarrow> accepts q es)"

definition stream_order_ok :: "event list \<Rightarrow> bool" where
  "stream_order_ok es = accepts Streaming es"

text \<open>
  What the vector store promises of a search: the hits in descending order of score, at
  most \<open>limit\<close> of them, none below the threshold.
\<close>

definition honours_contract :: "scored_point list \<Rightarrow> int \<Rightarrow> real \<Rightarrow> bool" where
  "honours_contract results limit score_threshold =
     (sorted_wrt (\<lambda>a b. b \<le> a) (map sp_score results)
      \<and> int (length results) \<le> limit
      \<and> list_all (\<lambda>r. score_threshold \<le> sp_score r) results)"

section \<open>A small deployment\<close>

text \<open>
  Three files, the second unreadable, and two files of no word; providers that always
  answer; a store that returns the first \<open>limit\<close> stored points with the score 0.9.
\<close>

definition empty_file :: md_file where
  "empty_file =
     \<lparr>file_name = lit ''empty.md'', file_stem = lit ''empty'',
      file_parts = [lit ''docs'', lit ''empty.md''], file_relative = lit ''empty.md'',
      file_read = Inr []\<rparr>"

definition blank_file :: md_file where
  "blank_file =
     \<lparr>file_name = lit ''blank.md'', file_stem = lit ''blank'',
      file_parts = [lit ''docs'', lit ''blank.md''], file_relative = lit ''blank.md'',
      file_read = Inr (lit ''  '')\<rparr>"

definition intro_file :: md_file where
  "intro_file =
     \<lparr>file_name = lit ''intro.md'', file_stem = lit ''intro'',
      file_parts = [lit ''docs'', lit ''intro.md''], file_relative = lit ''intro.md'',
      file_read = Inr (lit ''alpha beta'')\<rparr>"

definition bad_file :: md_file where
  "bad_file =
     \<lparr>file_name = lit ''bad.md'', file_stem = lit ''bad'',
      file_parts = [lit ''docs'', lit ''bad.md''], file_relative = lit ''bad.md'',
      file_read = Inl (UnicodeDecodeError (lit ''invalid start byte''))\<rparr>"

definition usage_file :: md_file where
  "usage_file =
     \<lparr>file_name = lit ''usage.md'', file_stem = lit ''usage'',
      file_parts = [lit ''docs'', lit ''usage.md''], file_relative = lit ''usage.md'',
      file_read = Inr (lit ''gamma'')\<rparr>"

definition example_files :: "md_file list" where
  "example_files = [intro_file, bad_file, usage_file]"

definition example_search ::
  "(pystr \<times> point) list \<Rightarrow> vector \<Rightarrow> int \<Rightarrow> real \<Rightarrow> pystr option \<Rightarrow> exn + scored_point list" where
  "example_search c v limit score_threshold flt =
     Inr (map (\<lambda>kp. \<lparr>sp_score = 0.9, sp_payload = point_payload (snd kp)\<rparr>) (take (nat limit) c))"

definition example_env :: env where
  "example_env =
     \<lparr>env_settings = default_settings,
      embeddings_create = (\<lambda>t. Inr [1]),
      qdrant_search = example_search,
      completions_create = (\<lambda>sys prompt. Inr (lit ''It is.'')),
      completions_stream = (\<lambda>sys prompt. Inr ([[Some (lit ''It'')], [None], [Some (lit '' is.'')]], None)),
      isoformat = str_nat,
      format_2f = (\<lambda>r. lit ''0.90''),
      str_lower = (\<lambda>s. s),
      str_title = (\<lambda>s. s),
      system_prompt = lit ''Answer from the context.'',
      model_name = lit ''gpt-4o-mini'',
      temperature = 0.3,
      rglob_md = (\<lambda>p. if p = lit ''../book/docs'' then Some example_files else None)\<rparr>"

definition empty_world :: world where
  "empty_world = \<lparr>collection = None, clock = 0\<rparr>"

definition example_world :: world where
  "example_world =
     \<lparr>collection = Some [(lit ''00000000-0000-0000-0000-000000000001'',
        \<lparr>point_id = lit ''00000000-0000-0000-0000-000000000001'', point_vector = [1],
         point_payload = \<lparr>p_text = Some (lit ''alpha beta''), p_doc_id = Some (lit ''intro''),
           p_title = Some (lit ''Intro''), p_url = Some (lit ''/intro''),
           p_chapter = Some (lit ''Main''), p_chunk_index = Some 0,
           p_indexed_at = Some (lit ''0'')\<rparr>\<rparr>)],
      clock = 1\<rparr>"

definition example_request :: chat_request where
  "example_request =
     \<lparr>req_question = lit ''What is it?'', req_top_k = 5, req_chapter_filter = None\<rparr>"

definition example_hits :: "scored_point list" where
  "example_hits =
     [\<lparr>sp_score = 0.9, sp_payload = \<lparr>p_text = Some (lit ''alpha beta''),
         p_doc_id = Some (lit ''intro''), p_title = Some (lit ''Intro''),
         p_url = Some (lit ''/intro''), p_chapter = Some (lit ''Main''),
         p_chunk_index = Some 0, p_indexed_at = None\<rparr>\<rparr>,
      \<lparr>sp_score = 0.7, sp_payload = \<lparr>p_text = Some (lit ''gamma''),
         p_doc_id = Some (lit ''usage''), p_title = Some (lit ''Usage''),
         p_url = Some (lit ''/usage''), p_chapter = Some (lit ''Main''),
         p_chunk_index = None, p_indexed_at = None\<rparr>\<rparr>]"

text \<open>
  \<open>made E d t u c p (k, chunk)\<close>: the point \<open>p\<close> is the one \<open>index_document\<close> builds for
  the chunk of index \<open>k\<close>, with some embedding and some time stamp.
\<close>

definition made ::
  "env \<Rightarrow> pystr \<Rightarrow> pystr \<Rightarrow> pystr \<Rightarrow> pystr option \<Rightarrow> point \<Rightarrow> nat \<times> pystr \<Rightarrow> bool" where
  "made E d t u c p kc = (\<exists>emb now. p = make_point E d t u c (fst kc) (snd kc) emb now)"


section \<open>Evaluation set-up\<close>

declare str_nat.simps [simp del]

declare replace.simps [simp del]

section \<open>Splitting, joining and stripping\<close>

lemma isspace_32: "isspace 32"
  by (simp add: isspace_def)

lemma split_from_words:
  "list_all (\<lambda>c. \<not> isspace c) cur \<Longrightarrow> list_all is_word (split_from cur s)"
  by (induction s arbitrary: cur) (auto simp: is_word_def)

lemma split_words: "list_all is_word (split s)"
  by (simp add: split_def split_from_words)

lemma split_from_word:
  "list_all (\<lambda>c. \<not> isspace c) w \<Longrightarrow> cur @ w \<noteq> [] \<Longrightarrow> split_from cur w = [cur @ w]"
  by (induction w arbitrary: cur) auto

lemma split_from_word_sep:
  "list_all (\<lambda>c. \<not> isspace c) w \<Longrightarrow> cur @ w \<noteq> [] \<Longrightarrow>
   split_from cur (w @ 32 # s) = (cur @ w) # split_from [] s"
  by (induction w arbitrary: cur) (auto simp: isspace_32)

lemma split_join_aux:
  "sep = [32] \<Longrightarrow> list_all is_word ws \<Longrightarrow> split (join sep ws) = ws"
proof (induction sep ws rule: join.induct)
  case (1 sep)
  then show ?case by (simp add: split_def)
next
  case (2 sep w)
  then show ?case by (simp add: split_def is_word_def split_from_word)
next
  case (3 sep w v ws)
  then show ?case
    by (simp add: split_def is_word_def split_from_word_sep)
qed

lemma split_join: "list_all is_word ws \<Longrightarrow> split (join (lit '' '') ws) = ws"
  by (simp add: split_join_aux lit_def)

lemma strip_Nil_iff: "strip s = [] \<longleftrightarrow> list_all isspace s"
proof -
  have a: "x \<in> set xs \<Longrightarrow> \<not> P x \<Longrightarrow> x \<in> set (dropWhile P xs)" for x :: nat and xs P
    by (induction xs) auto
  show ?thesis
    unfolding strip_def
    by (auto simp: list_all_iff dest: a set_dropWhileD)
qed

lemma join_hd:
  "ws \<noteq> [] \<Longrightarrow> hd ws \<noteq> [] \<Longrightarrow> join sep ws \<noteq> [] \<and> hd (join sep ws) = hd (hd ws)"
  by (induction sep ws rule: join.induct) auto

lemma strip_join_words:
  assumes "ws \<noteq> []" "list_all is_word ws"
  shows "0 < length (strip (join sep ws))"
proof -
  from assms have h: "hd ws \<noteq> []" "\<not> isspace (hd (hd ws))"
    by (cases ws; cases "hd ws"; auto simp: is_word_def)+
  with assms join_hd[of ws sep] have "join sep ws \<noteq> []" "\<not> isspace (hd (join sep ws))"
    by auto
  then have "\<not> list_all isspace (join sep ws)"
    by (cases "join sep ws") auto
  then show ?thesis by (simp add: strip_Nil_iff)
qed

section \<open>Ranges and slices\<close>

lemma range_up_map:
  "0 < step \<Longrightarrow>
   range_up i stop step = map (\<lambda>k. i + int k * step) [0..<nat (- ((i - stop) div step))]"
proof (induction i stop step rule: range_up.induct)
  case (1 i stop step)
  show ?case
  proof (cases "i < stop")
    case False
    with 1(2) have "0 \<le> (i - stop) div step"
      by (simp add: pos_imp_zdiv_nonneg_iff)
    with False 1(2) show ?thesis by simp
  next
    case True
    let ?n = "nat (- ((i - stop) div step))"
    let ?n' = "nat (- ((i + step - stop) div step))"
    have d: "(i + step - stop) div step = (i - stop) div step + 1"
      using 1(2) div_add_self2[of step "i - stop"] by (simp add: algebra_simps)
    have neg: "(i - stop) div step < 0"
      using True 1(2) by (simp add: div_neg_pos_less0)
    then have n: "?n = Suc ?n'" using d by simp
    have "range_up i stop step = i # range_up (i + step) stop step"
      using True 1(2) by simp
    also have "\<dots> = i # map (\<lambda>k. i + step + int k * step) [0..<?n']"
      using 1(1) True 1(2) by simp
    also have "\<dots> = map (\<lambda>k. i + int k * step) [0..<Suc ?n']"
      by (simp add: upt_conv_Cons map_Suc_upt[symmetric] algebra_simps del: upt_Suc range_up.simps)
    finally show ?thesis using n by (simp del: range_up.simps upt_Suc)
  qed
qed

lemma range_up_0:
  assumes "0 < step"
  shows "range_up 0 (int n) step =
         map (\<lambda>k. int k * step) [0..<nat \<lceil>real n / real_of_int step\<rceil>]"
proof -
  have "\<lceil>real n / real_of_int step\<rceil> = - ((0 - int n) div step)"
    using ceiling_divide_eq_div[of "int n" step] by simp
  then show ?thesis using range_up_map[OF assms, of 0 "int n"] by simp
qed

lemma below_count:
  assumes "0 < step" "k < nat \<lceil>real n / real_of_int step\<rceil>"
  shows "int k * step < int n"
proof -
  from assms(2) have "int k < \<lceil>real n / real_of_int step\<rceil>" by linarith
  then have "real k < real n / real_of_int step"
    by (simp add: less_ceiling_iff)
  then have "real k * real_of_int step < real n"
    using assms(1) by (simp add: pos_less_divide_eq)
  then have "real_of_int (int k * step) < real_of_int (int n)" by simp
  then show ?thesis by (simp only: of_int_less_iff)
qed

lemma count_above:
  assumes "0 < step" "int k * step < int n"
  shows "k < nat \<lceil>real n / real_of_int step\<rceil>"
proof -
  from assms(2) have "real_of_int (int k * step) < real_of_int (int n)"
    by (simp only: of_int_less_iff)
  then have "real k * real_of_int step < real n" by simp
  then have "real k < real n / real_of_int step"
    using assms(1) by (simp add: pos_less_divide_eq)
  then have "int k < \<lceil>real n / real_of_int step\<rceil>"
    by (simp add: less_ceiling_iff)
  then show ?thesis by linarith
qed

lemma below_count_nat:
  assumes "0 < step" "k < nat \<lceil>real n / real_of_int step\<rceil>"
  shows "k * nat step < n"
proof -
  have "int (k * nat step) = int k * step" using assms(1) by simp
  then show ?thesis using below_count[OF assms] by linarith
qed

lemma py_slice_window:
  "0 \<le> i \<Longrightarrow> 0 \<le> cs \<Longrightarrow> py_slice xs i (i + cs) = take (nat cs) (drop (nat i) xs)"
proof -
  assume a: "0 \<le> i" "0 \<le> cs"
  then have n: "nat (i + cs) - nat i = nat cs" by arith
  from a have s: "slice_bound (length xs) i = min (length xs) (nat i)"
    "slice_bound (length xs) (i + cs) = min (length xs) (nat (i + cs))"
    by (simp_all add: slice_bound_def)
  show ?thesis
  proof (cases "nat (i + cs) \<le> length xs")
    case True
    then have "nat i \<le> length xs" using a by arith
    with True n show ?thesis by (simp add: py_slice_def s min_def)
  next
    case False
    then have "length xs - nat i \<le> nat cs" using n by arith
    with False show ?thesis by (simp add: py_slice_def s min_def)
  qed
qed

section \<open>The chunker\<close>

lemma chunk_loop_filter:
  "chunk_loop words cs idxs acc =
   acc @ filter (\<lambda>c. 0 < length (strip c))
           (map (\<lambda>i. join (lit '' '') (py_slice words i (i + cs))) idxs)"
  by (induction idxs arbitrary: acc) (simp_all add: Let_def)

lemma window_words: "list_all is_word (window (split s) chunk_size step k)"
  using split_words[of s]
  by (auto simp: window_def list_all_iff dest!: in_set_takeD in_set_dropD)

lemma chunk_text_windows:
  assumes "overlap < chunk_size" "0 < chunk_size"
  shows "chunk_text s chunk_size overlap =
     Inr (map (\<lambda>k. join (lit '' '') (window (split s) chunk_size (chunk_size - overlap) k))
            [0..<nat \<lceil>real (length (split s)) / real_of_int (chunk_size - overlap)\<rceil>])"
proof -
  let ?ws = "split s" and ?step = "chunk_size - overlap"
  let ?n = "nat \<lceil>real (length ?ws) / real_of_int ?step\<rceil>"
  have step: "0 < ?step" using assms by simp
  have r: "py_range 0 (int (length ?ws)) ?step = Inr (map (\<lambda>k. int k * ?step) [0..<?n])"
    using step range_up_0[OF step, of "length ?ws"] by (simp add: py_range_def)
  have w: "join (lit '' '') (py_slice ?ws (int k * ?step) (int k * ?step + chunk_size)) =
           join (lit '' '') (window ?ws chunk_size ?step k)
         \<and> 0 < length (strip (join (lit '' '') (window ?ws chunk_size ?step k)))"
    if "k < ?n" for k
  proof -
    have nk: "nat (int k * ?step) = k * nat ?step"
      using step by (simp add: nat_mult_distrib)
    have "k * nat ?step < length ?ws" using below_count_nat[OF step that] .
    then have ne: "window ?ws chunk_size ?step k \<noteq> []"
      using assms(2) by (simp add: window_def)
    then have "0 < length (strip (join (lit '' '') (window ?ws chunk_size ?step k)))"
      using window_words by (rule strip_join_words)
    moreover have "py_slice ?ws (int k * ?step) (int k * ?step + chunk_size) =
        window ?ws chunk_size ?step k"
      using py_slice_window[of "int k * ?step" chunk_size ?ws] step assms(2) nk
      by (simp add: window_def)
    ultimately show ?thesis by simp
  qed
  have "filter (\<lambda>c. 0 < length (strip c))
          (map (\<lambda>i. join (lit '' '') (py_slice ?ws i (i + chunk_size)))
             (map (\<lambda>k. int k * ?step) [0..<?n])) =
        map (\<lambda>k. join (lit '' '') (window ?ws chunk_size ?step k)) [0..<?n]"
    (is "filter ?P (map ?f (map ?g _)) = map ?h _")
  proof -
    have m: "map ?f (map ?g [0..<?n]) = map ?h [0..<?n]"
      using w by simp
    have f: "filter ?P (map ?h [0..<?n]) = map ?h [0..<?n]"
      using w by (simp add: filter_id_conv)
    show ?thesis by (simp only: m f)
  qed
  then show ?thesis
    by (simp add: chunk_text_def Let_def r chunk_loop_filter)
qed

text \<open>
  What \<open>chunk_text\<close> returns for a text of \<open>N\<close> words and \<open>0 < overlap < chunk_size \<le> N\<close>:
  \<open>\<lceil>N / (chunk_size - overlap)\<rceil>\<close> segments, one for every start position of the range
  below \<open>N\<close>. No segment is blank, and the word at every position \<open>p\<close> is a word of the
  segment whose window holds \<open>p\<close>.
\<close>

theorem chunk_text_segments:
  assumes "0 < overlap" "overlap < chunk_size" "chunk_size \<le> int (length (split s))"
  shows "\<exists>chunks. chunk_text s chunk_size overlap = Inr chunks
    \<and> int (length chunks) =
        \<lceil>real (length (split s)) / real_of_int (chunk_size - overlap)\<rceil>
    \<and> (\<forall>c \<in> set chunks. strip c \<noteq> [])
    \<and> (\<forall>p < length (split s). \<exists>k < length chunks.
          k * nat (chunk_size - overlap) \<le> p
        \<and> p < k * nat (chunk_size - overlap) + nat chunk_size
        \<and> split (chunks ! k) ! (p - k * nat (chunk_size - overlap)) = split s ! p)"
proof -
  let ?ws = "split s" and ?step = "chunk_size - overlap"
  let ?n = "nat \<lceil>real (length ?ws) / real_of_int ?step\<rceil>"
  let ?chunks = "map (\<lambda>k. join (lit '' '') (window ?ws chunk_size ?step k)) [0..<?n]"
  have cs: "0 < chunk_size" and step: "0 < ?step" using assms by simp_all
  have eq: "chunk_text s chunk_size overlap = Inr ?chunks"
    using chunk_text_windows[OF assms(2) cs] .
  have len: "int (length ?chunks) = \<lceil>real (length ?ws) / real_of_int ?step\<rceil>"
  proof -
    have "0 \<le> real (length ?ws) / real_of_int ?step" using step by simp
    then have "0 \<le> \<lceil>real (length ?ws) / real_of_int ?step\<rceil>" by linarith
    then show ?thesis by simp
  qed
  have nonempty: "\<forall>c \<in> set ?chunks. strip c \<noteq> []"
  proof
    fix c assume "c \<in> set ?chunks"
    then obtain k where k: "k < ?n" and c: "c = join (lit '' '') (window ?ws chunk_size ?step k)"
      by auto
    have "k * nat ?step < length ?ws" using below_count_nat[OF step k] .
    then have "window ?ws chunk_size ?step k \<noteq> []" using cs by (simp add: window_def)
    then have "0 < length (strip c)" unfolding c using window_words by (rule strip_join_words)
    then show "strip c \<noteq> []" by simp
  qed
  have cover: "\<forall>p < length ?ws. \<exists>k < length ?chunks.
          k * nat ?step \<le> p \<and> p < k * nat ?step + nat chunk_size
        \<and> split (?chunks ! k) ! (p - k * nat ?step) = ?ws ! p"
  proof (intro allI impI)
    fix p assume p: "p < length ?ws"
    have sp: "0 < nat ?step" using step by simp
    obtain k where lo: "k * nat ?step \<le> p" and up: "p < k * nat ?step + nat ?step"
    proof
      show "(p div nat ?step) * nat ?step \<le> p" by simp
      show "p < (p div nat ?step) * nat ?step + nat ?step"
        using sp by (metis add.commute dividend_less_div_times)
    qed
    have "nat ?step \<le> nat chunk_size" using assms(1) by simp
    with up have hi: "p < k * nat ?step + nat chunk_size" by linarith
    have "int k * ?step = int (k * nat ?step)" using step by simp
    also have "\<dots> < int (length ?ws)" using lo p by linarith
    finally have k: "k < ?n" using count_above[OF step] by simp
    have "split (?chunks ! k) = window ?ws chunk_size ?step k"
      using k window_words by (simp add: split_join)
    moreover have "window ?ws chunk_size ?step k ! (p - k * nat ?step) = ?ws ! p"
    proof -
      have "p - k * nat ?step < nat chunk_size" using lo hi by linarith
      moreover have "k * nat ?step + (p - k * nat ?step) = p" using lo by simp
      ultimately show ?thesis using p by (simp add: window_def)
    qed
    ultimately show "\<exists>k < length ?chunks.
          k * nat ?step \<le> p \<and> p < k * nat ?step + nat chunk_size
        \<and> split (?chunks ! k) ! (p - k * nat ?step) = ?ws ! p"
      using k lo hi by (intro exI[of _ k]) simp
  qed
  show ?thesis using eq len nonempty cover by blast
qed

lemmas eval_str = lit_def split_def isspace_def strip_def py_slice_def slice_bound_def

text \<open>
  What the agent's chunker returns under the same conditions: it returns, and the number
  of its chunks is \<open>\<lceil>(N - overlap) / (chunk_size - overlap)\<rceil>\<close>.
\<close>

lemma agent_loop_count:
  assumes "0 < overlap" "overlap < chunk_size"
  shows "0 \<le> start \<Longrightarrow> start + overlap < int (length words) \<Longrightarrow>
    \<exists>res. agent_chunk_loop md5_hex words chunk_size overlap start chunk_id chunks = Some res
      \<and> int (length res) = int (length chunks)
          + \<lceil>real_of_int (int (length words) - start - overlap) / real_of_int (chunk_size - overlap)\<rceil>"
proof (induction "nat (int (length words) - start)" arbitrary: start chunk_id chunks
    rule: less_induct)
  case less
  let ?N = "int (length words)" and ?step = "chunk_size - overlap"
  have step: "0 < ?step" using assms by simp
  have lt: "start < ?N" using less.prems assms by linarith
  show ?case
  proof (cases "start + chunk_size < ?N")
    case True
    then have e: "agent_chunk_end words chunk_size start = start + chunk_size"
      by (simp add: agent_chunk_end_def)
    let ?c = "chunks @ [make_agent_chunk md5_hex words chunk_id start (start + chunk_size)]"
    have unf: "agent_chunk_loop md5_hex words chunk_size overlap start chunk_id chunks =
        agent_chunk_loop md5_hex words chunk_size overlap (start + ?step) (chunk_id + 1) ?c"
      using lt True by (subst agent_chunk_loop.simps) (simp add: e algebra_simps)
    have m: "nat (?N - (start + ?step)) < nat (?N - start)" using step lt by linarith
    have p1: "0 \<le> start + ?step" using less.prems step by linarith
    have p2: "start + ?step + overlap < ?N" using True by simp
    from less.hyps[OF m p1 p2, of "chunk_id + 1" ?c] obtain res where
      r: "agent_chunk_loop md5_hex words chunk_size overlap (start + ?step) (chunk_id + 1) ?c
            = Some res"
      and l: "int (length res) = int (length ?c)
          + \<lceil>real_of_int (?N - (start + ?step) - overlap) / real_of_int ?step\<rceil>"
      by blast
    have "real_of_int (?N - start - overlap) / real_of_int ?step =
        real_of_int (?N - (start + ?step) - overlap) / real_of_int ?step + 1"
      using step by (simp add: field_simps)
    then have "\<lceil>real_of_int (?N - start - overlap) / real_of_int ?step\<rceil> =
        \<lceil>real_of_int (?N - (start + ?step) - overlap) / real_of_int ?step\<rceil> + 1"
      by (simp only: ceiling_add_one)
    with r l unf show ?thesis by simp
  next
    case False
    then have e: "agent_chunk_end words chunk_size start = ?N"
      by (simp add: agent_chunk_end_def)
    let ?c = "chunks @ [make_agent_chunk md5_hex words chunk_id start ?N]"
    have "agent_chunk_loop md5_hex words chunk_size overlap start chunk_id chunks =
        agent_chunk_loop md5_hex words chunk_size overlap ?N (chunk_id + 1) ?c"
      using lt by (subst agent_chunk_loop.simps) (simp add: e)
    also have "\<dots> = Some ?c"
      by (subst agent_chunk_loop.simps) simp
    finally have r: "agent_chunk_loop md5_hex words chunk_size overlap start chunk_id chunks
        = Some ?c" .
    have "0 < real_of_int (?N - start - overlap) / real_of_int ?step"
      using less.prems step by simp
    moreover have "real_of_int (?N - start - overlap) / real_of_int ?step \<le> 1"
      using False step by (simp add: field_simps)
    ultimately have "\<lceil>real_of_int (?N - start - overlap) / real_of_int ?step\<rceil> = 1"
      by (simp add: ceiling_eq_iff)
    with r show ?thesis by simp
  qed
qed

lemma agent_chunk_text_count:
  assumes "0 < overlap" "overlap < chunk_size" "chunk_size \<le> int (length (split s))"
  shows "\<exists>res. agent_chunk_text md5_hex s chunk_size overlap = Some res
    \<and> int (length res) =
        \<lceil>real_of_int (int (length (split s)) - overlap) / real_of_int (chunk_size - overlap)\<rceil>"
proof -
  have "0 + overlap < int (length (split s))" using assms by linarith
  from agent_loop_count[OF assms(1,2) _ this, of md5_hex 0 "[]"] show ?thesis
    by (simp add: agent_chunk_text_def)
qed

text \<open>
  C1 on the code. The text \<open>a b\<close> has two words. With chunk size 2 and overlap 1 the
  claim's count \<open>\<lceil>(N - overlap) / (chunk_size - overlap)\<rceil>\<close> is 1, and one chunk is what
  the agent's chunker returns. \<open>RAGService.chunk_text\<close> returns two: the whole text, and
  a tail \<open>b\<close> that repeats the end of the first.
\<close>

theorem chunk_text_redundant_tail:
  "int (length (split (lit ''a b''))) = 2
   \<and> chunk_text (lit ''a b'') 2 1 = Inr [lit ''a b'', lit ''b'']
   \<and> \<lceil>(real 2 - real_of_int 1) / real_of_int (2 - 1)\<rceil> = (1::int)
   \<and> map_option (map ac_text) (agent_chunk_text (\<lambda>s. []) (lit ''a b'') 2 1) =
       Some [lit ''a b'']"
  by (simp add: chunk_text_def py_range_def agent_chunk_text_def agent_chunk_loop.simps
      agent_chunk_end_def make_agent_chunk_def eval_str)

lemma chunk_loop_Nil_size0: "chunk_loop words 0 idxs [] = []"
  by (simp add: chunk_loop_filter py_slice_def filter_empty_conv strip_def)

text \<open>
  C3, as the code has it. The chunker checks no parameter. With \<open>overlap = chunk_size\<close>
  the zero step makes \<open>range\<close> raise a \<open>ValueError\<close> before any chunk is built; with
  \<open>overlap > chunk_size\<close> the range is empty and the result is the empty list, with no
  error; with \<open>chunk_size \<le> 0\<close> and a smaller overlap a list is returned with no error,
  the empty one for \<open>chunk_size = 0\<close>. Every call returns: the range is finite.
\<close>

theorem chunk_text_bad_parameters:
  "(overlap = chunk_size \<longrightarrow>
      chunk_text s chunk_size overlap = Inl (ValueError (lit ''range() arg 3 must not be zero'')))
   \<and> (chunk_size < overlap \<longrightarrow> chunk_text s chunk_size overlap = Inr [])
   \<and> (overlap < chunk_size \<and> chunk_size = 0 \<longrightarrow> chunk_text s chunk_size overlap = Inr [])
   \<and> (overlap < chunk_size \<and> chunk_size < 0 \<longrightarrow>
        (\<exists>chunks. chunk_text s chunk_size overlap = Inr chunks))"
proof (intro conjI impI)
  assume "overlap = chunk_size"
  then show "chunk_text s chunk_size overlap =
      Inl (ValueError (lit ''range() arg 3 must not be zero''))"
    by (simp add: chunk_text_def py_range_def)
next
  assume "chunk_size < overlap"
  then show "chunk_text s chunk_size overlap = Inr []"
    by (simp add: chunk_text_def py_range_def)
next
  assume "overlap < chunk_size \<and> chunk_size = 0"
  then show "chunk_text s chunk_size overlap = Inr []"
    by (simp add: chunk_text_def py_range_def chunk_loop_Nil_size0 del: range_up.simps)
next
  assume "overlap < chunk_size \<and> chunk_size < 0"
  then show "\<exists>chunks. chunk_text s chunk_size overlap = Inr chunks"
    by (simp add: chunk_text_def py_range_def Let_def del: range_up.simps)
qed

text \<open>C3, at the text \<open>a b c\<close> for each kind of parameter pair.\<close>

theorem chunk_text_bad_parameters_witness:
  "chunk_text (lit ''a b c'') 2 2 = Inl (ValueError (lit ''range() arg 3 must not be zero''))
   \<and> chunk_text (lit ''a b c'') 2 3 = Inr []
   \<and> chunk_text (lit ''a b c'') 0 (- 1) = Inr []
   \<and> (\<exists>chunks. chunk_text (lit ''a b c'') (- 1) (- 2) = Inr chunks)"
  using chunk_text_bad_parameters[of 2 2 "lit ''a b c''"]
    chunk_text_bad_parameters[of 3 2 "lit ''a b c''"]
    chunk_text_bad_parameters[of "- 1" 0 "lit ''a b c''"]
    chunk_text_bad_parameters[of "- 2" "- 1" "lit ''a b c''"]
  by simp

text \<open>
  C3 as the specification states it: with chunk size 1 and overlap 2 the call returns the
  empty list; nothing is raised.
\<close>

theorem chunk_text_bad_parameters_counterexample:
  "chunk_text (lit ''a b'') 1 2 = Inr []"
  by (simp add: chunk_text_def py_range_def eval_str)

section \<open>Indexing a document\<close>

lemma str_nat_nonempty: "str_nat n \<noteq> []"
  by (subst str_nat.simps) simp

lemma str_nat_inj: "str_nat m = str_nat n \<Longrightarrow> m = n"
proof (induction m arbitrary: n rule: str_nat.induct)
  case (1 m)
  show ?case
  proof (cases "m < 10")
    case m: True
    show ?thesis
    proof (cases "n < 10")
      case True
      with m 1(2) show ?thesis by (simp add: str_nat.simps[of m] str_nat.simps[of n])
    next
      case False
      with m 1(2) have "[48 + m] = str_nat (n div 10) @ [48 + n mod 10]"
        by (simp add: str_nat.simps[of m] str_nat.simps[of n])
      then have "str_nat (n div 10) = []" by (simp add: Cons_eq_append_conv)
      then show ?thesis by (simp add: str_nat_nonempty)
    qed
  next
    case m: False
    show ?thesis
    proof (cases "n < 10")
      case True
      with m 1(2) have "str_nat (m div 10) @ [48 + m mod 10] = [48 + n]"
        by (simp add: str_nat.simps[of m] str_nat.simps[of n])
      then have "str_nat (m div 10) = []" by (simp add: append_eq_Cons_conv)
      then show ?thesis by (simp add: str_nat_nonempty)
    next
      case False
      with m 1(2) have "str_nat (m div 10) = str_nat (n div 10)" "m mod 10 = n mod 10"
        by (simp_all add: str_nat.simps[of m] str_nat.simps[of n])
      with 1(1)[OF m] have "m div 10 = n div 10" "m mod 10 = n mod 10" by simp_all
      then show ?thesis by (metis div_mult_mod_eq)
    qed
  qed
qed

lemma point_id_make_point [simp]:
  "point_id (make_point E d t u c k chunk emb now) = d @ lit ''_chunk_'' @ str_nat k"
  "p_chunk_index (point_payload (make_point E d t u c k chunk emb now)) = Some (int k)"
  "p_text (point_payload (make_point E d t u c k chunk emb now)) = Some chunk"
  by (simp_all add: make_point_def)

lemma build_points_result:
  "build_points E d t u c i chunks points w = (Inr ps, w') \<Longrightarrow>
   collection w' = collection w \<and>
   (\<exists>new. ps = points @ new \<and>
      list_all2 (made E d t u c) new (zip [i..<i + length chunks] chunks))"
proof (induction chunks arbitrary: i points w)
  case Nil
  then show ?case by simp
next
  case (Cons chunk rest)
  from Cons.prems obtain emb where
    r: "build_points E d t u c (Suc i) rest
          (points @ [make_point E d t u c i chunk emb (clock w)])
          (w\<lparr>clock := Suc (clock w)\<rparr>) = (Inr ps, w')"
    by (auto simp: utcnow_def split: sum.splits)
  from Cons.IH[OF r] obtain new where
    c: "collection w' = collection w"
    and n: "ps = (points @ [make_point E d t u c i chunk emb (clock w)]) @ new"
    and l: "list_all2 (made E d t u c) new (zip [Suc i..<Suc i + length rest] rest)"
    by auto
  have "[i..<i + length (chunk # rest)] = i # [Suc i..<Suc i + length rest]"
    by (simp add: upt_conv_Cons del: upt_Suc)
  then have z: "zip [i..<i + length (chunk # rest)] (chunk # rest) =
      (i, chunk) # zip [Suc i..<Suc i + length rest] rest"
    by (simp del: upt_Suc)
  have "made E d t u c (make_point E d t u c i chunk emb (clock w)) (i, chunk)"
    unfolding made_def by auto
  with l have "list_all2 (made E d t u c)
      (make_point E d t u c i chunk emb (clock w) # new)
      (zip [i..<i + length (chunk # rest)] (chunk # rest))"
    unfolding z by simp
  with c n show ?case by (intro conjI exI[of _ "make_point E d t u c i chunk emb (clock w) # new"]) simp_all
qed

lemma fold_update_other:
  "k \<notin> point_id ` set ps \<Longrightarrow>
   map_of (fold (\<lambda>p. AList.update (point_id p) p) ps c) k = map_of c k"
  by (induction ps arbitrary: c) (simp_all add: update_conv')

lemma fold_update_lookup:
  "distinct (map point_id ps) \<Longrightarrow> p \<in> set ps \<Longrightarrow>
   map_of (fold (\<lambda>p. AList.update (point_id p) p) ps c) (point_id p) = Some p"
proof (induction ps arbitrary: c)
  case Nil
  then show ?case by simp
next
  case (Cons q ps)
  show ?case
  proof (cases "p \<in> set ps")
    case True
    with Cons show ?thesis by simp
  next
    case False
    with Cons.prems have "p = q" "point_id q \<notin> point_id ` set ps" by auto
    then show ?thesis by (simp add: fold_update_other update_conv')
  qed
qed

lemma fold_update_keys:
  "fst ` set (fold (\<lambda>p. AList.update (point_id p) p) ps c) =
   fst ` set c \<union> point_id ` set ps"
proof (induction ps arbitrary: c)
  case Nil
  then show ?case by simp
next
  case (Cons q ps)
  have "fst ` set (fold (\<lambda>p. AList.update (point_id p) p) (q # ps) c) =
      fst ` set (AList.update (point_id q) q c) \<union> point_id ` set ps"
    using Cons.IH[of "AList.update (point_id q) q c"] by simp
  also have "\<dots> = ({point_id q} \<union> fst ` set c) \<union> point_id ` set ps"
    by (simp only: dom_update)
  finally show ?case by auto
qed

lemma fold_update_present:
  "point_id ` set ps \<subseteq> fst ` set c \<Longrightarrow>
   map fst (fold (\<lambda>p. AList.update (point_id p) p) ps c) = map fst c"
proof (induction ps arbitrary: c)
  case Nil
  then show ?case by simp
next
  case (Cons q ps)
  from Cons.prems have q: "point_id q \<in> fst ` set c" and r: "point_id ` set ps \<subseteq> fst ` set c"
    by auto
  have k: "map fst (AList.update (point_id q) q c) = map fst c"
    using q by (simp add: update_keys)
  then have "fst ` set (AList.update (point_id q) q c) = fst ` set c"
    by (metis set_map)
  with r have "point_id ` set ps \<subseteq> fst ` set (AList.update (point_id q) q c)" by simp
  from Cons.IH[OF this] k show ?case by simp
qed

lemma chunk_text_default: "\<exists>chunks. chunk_text content 500 100 = Inr chunks"
  using chunk_text_windows[of 100 500 content] by simp

lemma index_document_result:
  assumes "index_document E w d t content u ch = (Inr n, w')"
  shows "\<exists>chunks ps. chunk_text content 500 100 = Inr chunks \<and> n = length chunks
     \<and> list_all2 (made E d t u ch) ps (zip [0..<length chunks] chunks)
     \<and> collection w' = Some (fold (\<lambda>p. AList.update (point_id p) p) ps
          (case collection w of None \<Rightarrow> [] | Some c \<Rightarrow> c))"
proof -
  let ?w1 = "ensure_collection_exists w"
  let ?old = "case collection w of None \<Rightarrow> [] | Some c \<Rightarrow> c"
  have c1: "collection ?w1 = Some ?old"
    by (simp add: ensure_collection_exists_def split: option.splits)
  from assms obtain chunks ps w2 where
    ch: "chunk_text content 500 100 = Inr chunks"
    and bp: "build_points E d t u ch 0 chunks [] ?w1 = (Inr ps, w2)"
    and up: "qdrant_upsert ps w2 = (Inr (), w')"
    and n: "n = length chunks"
    by (auto simp: index_document_def Let_def split: sum.splits prod.splits)
  from build_points_result[OF bp] have c2: "collection w2 = Some ?old"
    and l: "list_all2 (made E d t u ch) ps (zip [0..<length chunks] chunks)"
    using c1 by auto
  from up c2 have "collection w' = Some (fold (\<lambda>p. AList.update (point_id p) p) ps ?old)"
    by (auto simp: qdrant_upsert_def split: option.splits)
  with ch n l show ?thesis by blast
qed

lemma made_points:
  assumes "list_all2 (made E d t u ch) ps (zip [0..<length chunks] chunks)"
  shows "length ps = length chunks"
    and "map point_id ps = map (\<lambda>i. d @ lit ''_chunk_'' @ str_nat i) [0..<length chunks]"
    and "i < length chunks \<Longrightarrow> point_id (ps ! i) = d @ lit ''_chunk_'' @ str_nat i
          \<and> p_chunk_index (point_payload (ps ! i)) = Some (int i)
          \<and> p_text (point_payload (ps ! i)) = Some (chunks ! i)"
proof -
  show len: "length ps = length chunks"
    using list_all2_lengthD[OF assms] by simp
  have nth: "made E d t u ch (ps ! i) (i, chunks ! i)" if "i < length chunks" for i
    using list_all2_nthD[OF assms, of i] that len by simp
  show "i < length chunks \<Longrightarrow> point_id (ps ! i) = d @ lit ''_chunk_'' @ str_nat i
          \<and> p_chunk_index (point_payload (ps ! i)) = Some (int i)
          \<and> p_text (point_payload (ps ! i)) = Some (chunks ! i)"
    using nth[of i] by (auto simp: made_def)
  show "map point_id ps = map (\<lambda>i. d @ lit ''_chunk_'' @ str_nat i) [0..<length chunks]"
  proof (rule nth_equalityI)
    show "length (map point_id ps) =
        length (map (\<lambda>i. d @ lit ''_chunk_'' @ str_nat i) [0..<length chunks])"
      using len by simp
  next
    fix i assume "i < length (map point_id ps)"
    then have i: "i < length chunks" using len by simp
    then have "point_id (ps ! i) = d @ lit ''_chunk_'' @ str_nat i"
      using nth[of i] by (auto simp: made_def)
    then show "map point_id ps ! i =
        map (\<lambda>i. d @ lit ''_chunk_'' @ str_nat i) [0..<length chunks] ! i"
      using i len by simp
  qed
qed

lemma chunk_ids_distinct:
  "distinct (map (\<lambda>i. d @ lit ''_chunk_'' @ str_nat i) [0..<n])"
  by (simp add: distinct_map inj_on_def str_nat_inj)

lemma index_document_stored:
  assumes "index_document E w d t content u ch = (Inr n, w')"
  shows "\<exists>chunks c. chunk_text content 500 100 = Inr chunks \<and> n = length chunks
     \<and> collection w' = Some c
     \<and> fst ` set c = fst ` set (case collection w of None \<Rightarrow> [] | Some c \<Rightarrow> c)
          \<union> (\<lambda>i. d @ lit ''_chunk_'' @ str_nat i) ` {0..<n}
     \<and> ((\<lambda>i. d @ lit ''_chunk_'' @ str_nat i) ` {0..<n}
           \<subseteq> fst ` set (case collection w of None \<Rightarrow> [] | Some c \<Rightarrow> c)
          \<longrightarrow> map fst c = map fst (case collection w of None \<Rightarrow> [] | Some c \<Rightarrow> c))
     \<and> (\<forall>i<n. \<exists>p. map_of c (d @ lit ''_chunk_'' @ str_nat i) = Some p
           \<and> point_id p = d @ lit ''_chunk_'' @ str_nat i
           \<and> p_chunk_index (point_payload p) = Some (int i)
           \<and> p_text (point_payload p) = Some (chunks ! i))"
proof -
  let ?old = "case collection w of None \<Rightarrow> [] | Some c \<Rightarrow> c"
  let ?id = "\<lambda>i. d @ lit ''_chunk_'' @ str_nat i"
  from index_document_result[OF assms] obtain chunks ps where
    ch: "chunk_text content 500 100 = Inr chunks" and n: "n = length chunks"
    and l: "list_all2 (made E d t u ch) ps (zip [0..<length chunks] chunks)"
    and c: "collection w' = Some (fold (\<lambda>p. AList.update (point_id p) p) ps ?old)"
    by blast
  let ?new = "fold (\<lambda>p. AList.update (point_id p) p) ps ?old"
  note mp = made_points[OF l]
  have ids: "point_id ` set ps = ?id ` {0..<n}"
  proof -
    have "point_id ` set ps = set (map point_id ps)" by simp
    also have "\<dots> = ?id ` {0..<n}" unfolding mp(2) n by simp
    finally show ?thesis .
  qed
  have keys: "fst ` set ?new = fst ` set ?old \<union> ?id ` {0..<n}"
    using fold_update_keys[of ps ?old] ids by simp
  have same: "?id ` {0..<n} \<subseteq> fst ` set ?old \<longrightarrow> map fst ?new = map fst ?old"
    using fold_update_present[of ps ?old] ids by simp
  have dist: "distinct (map point_id ps)"
    unfolding mp(2) by (rule chunk_ids_distinct)
  have look: "\<forall>i<n. \<exists>p. map_of ?new (?id i) = Some p \<and> point_id p = ?id i
           \<and> p_chunk_index (point_payload p) = Some (int i)
           \<and> p_text (point_payload p) = Some (chunks ! i)"
  proof (intro allI impI)
    fix i assume i: "i < n"
    then have m: "ps ! i \<in> set ps" using mp(1) n by simp
    have p: "point_id (ps ! i) = ?id i"
      "p_chunk_index (point_payload (ps ! i)) = Some (int i)"
      "p_text (point_payload (ps ! i)) = Some (chunks ! i)"
      using mp(3)[of i] i n by simp_all
    have "map_of ?new (point_id (ps ! i)) = Some (ps ! i)"
      using fold_update_lookup[OF dist m] .
    with p show "\<exists>p. map_of ?new (?id i) = Some p \<and> point_id p = ?id i
           \<and> p_chunk_index (point_payload p) = Some (int i)
           \<and> p_text (point_payload p) = Some (chunks ! i)"
      by (intro exI[of _ "ps ! i"]) simp
  qed
  show ?thesis
    using ch n c keys same look by (intro exI[of _ chunks] exI[of _ ?new]) simp
qed

text \<open>
  The ids \<open>index_document\<close> builds hold the letter \<open>k\<close>, which no step of the UUID
  reading removes and which is no hexadecimal digit: the store refuses every one of them.
\<close>

lemma replace_keeps:
  "c \<in> set s \<Longrightarrow> c \<notin> set old \<Longrightarrow> c \<in> set (replace old new s)"
proof (induction old new s rule: replace.induct)
  case (1 old new s)
  show ?case
  proof (cases "old = []")
    case True
    with 1(3) show ?thesis by (subst replace.simps) auto
  next
    case ne: False
    from 1(3) have s: "s \<noteq> []" by auto
    show ?thesis
    proof (cases "take (length old) s = old")
      case True
      have "s = take (length old) s @ drop (length old) s" by simp
      then have "set s = set old \<union> set (drop (length old) s)"
        using True by (metis set_append)
      with 1(3,4) have "c \<in> set (drop (length old) s)" by auto
      from 1(1)[OF ne s True this 1(4)] show ?thesis
        using ne s True by (subst replace.simps) simp
    next
      case False
      show ?thesis
      proof (cases "c = hd s")
        case True
        with ne s False show ?thesis by (subst replace.simps) simp
      next
        case nh: False
        with 1(3) s have "c \<in> set (tl s)" by (cases s) auto
        from 1(2)[OF ne s False this 1(4)] show ?thesis
          using ne s False by (subst replace.simps) simp
      qed
    qed
  qed
qed

lemma dropWhile_keeps: "x \<in> set xs \<Longrightarrow> \<not> P x \<Longrightarrow> x \<in> set (dropWhile P xs)"
  by (induction xs) auto

lemma strip_chars_keeps:
  "c \<in> set s \<Longrightarrow> c \<notin> set cs \<Longrightarrow> c \<in> set (strip_chars cs s)"
  by (simp add: strip_chars_def dropWhile_keeps)

lemma not_uuid_with_k: "107 \<in> set s \<Longrightarrow> \<not> is_uuid s"
proof -
  assume k: "107 \<in> set s"
  let ?h = "replace (lit ''-'') []
                (strip_chars (lit ''{}'')
                   (replace (lit ''uuid:'') [] (replace (lit ''urn:'') [] s)))"
  have "107 \<in> set (replace (lit ''urn:'') [] s)"
    using k by (rule replace_keeps) (simp add: lit_def)
  then have "107 \<in> set (replace (lit ''uuid:'') [] (replace (lit ''urn:'') [] s))"
    by (rule replace_keeps) (simp add: lit_def)
  then have "107 \<in> set (strip_chars (lit ''{}'')
       (replace (lit ''uuid:'') [] (replace (lit ''urn:'') [] s)))"
    by (rule strip_chars_keeps) (simp add: lit_def)
  then have "107 \<in> set ?h"
    by (rule replace_keeps) (simp add: lit_def)
  moreover have "\<not> is_hex_digit 107" by (simp add: is_hex_digit_def)
  ultimately have "\<not> list_all is_hex_digit ?h" by (auto simp: list_all_iff)
  then show ?thesis by (simp add: is_uuid_def Let_def)
qed

lemma chunk_id_not_uuid: "\<not> is_uuid (d @ lit ''_chunk_'' @ str_nat i)"
  by (rule not_uuid_with_k) (simp add: lit_def)

lemma upsert_refuses:
  assumes "collection w = Some c" "ps \<noteq> []" "\<forall>p \<in> set ps. \<not> is_uuid (point_id p)"
  shows "qdrant_upsert ps w =
    (Inl (ValueError (lit ''Point id '' @ point_id (hd ps) @ lit '' is not a valid UUID'')), w)"
proof -
  from assms(2,3) have "find (\<lambda>p. \<not> is_uuid (point_id p)) ps = Some (hd ps)"
    by (cases ps) auto
  with assms(1) show ?thesis by (simp add: qdrant_upsert_def)
qed

lemma upsert_Nil: "collection w = Some c \<Longrightarrow> qdrant_upsert [] w = (Inr (), w)"
  by (simp add: qdrant_upsert_def)

lemma chunk_text_default_nonempty:
  assumes "split content \<noteq> []"
  shows "\<exists>chunks. chunk_text content 500 100 = Inr chunks \<and> chunks \<noteq> []"
proof -
  have "0 < real (length (split content)) / real_of_int (500 - 100)"
    using assms by simp
  then have "0 < \<lceil>real (length (split content)) / real_of_int (500 - 100)\<rceil>"
    by (simp only: zero_less_ceiling)
  then have "0 < nat \<lceil>real (length (split content)) / real_of_int (500 - 100)\<rceil>" by simp
  then show ?thesis
    using chunk_text_windows[of 100 500 content] by (simp del: of_int_diff)
qed

lemma index_document_outcome:
  assumes "chunk_text content 500 100 = Inr chunks"
  shows "index_document E w d t content u ch =
    (case build_points E d t u ch 0 chunks [] (ensure_collection_exists w) of
       (Inl e, w2) \<Rightarrow> (Inl e, w2)
     | (Inr ps, w2) \<Rightarrow>
         if chunks = [] then (Inr 0, w2)
         else (Inl (ValueError (lit ''Point id '' @ d @ lit ''_chunk_0''
                 @ lit '' is not a valid UUID'')), w2))"
proof (cases "build_points E d t u ch 0 chunks [] (ensure_collection_exists w)")
  case (Pair r w2)
  show ?thesis
  proof (cases r)
    case (Inl e)
    with Pair assms show ?thesis by (simp add: index_document_def)
  next
    case (Inr ps)
    with Pair have bp: "build_points E d t u ch 0 chunks [] (ensure_collection_exists w) = (Inr ps, w2)"
      by simp
    from build_points_result[OF bp] have c2: "collection w2 = collection (ensure_collection_exists w)"
      and l: "list_all2 (made E d t u ch) ps (zip [0..<length chunks] chunks)"
      by auto
    obtain c where c: "collection w2 = Some c"
      using c2 by (auto simp: ensure_collection_exists_def split: option.splits)
    note mp = made_points[OF l]
    show ?thesis
    proof (cases "chunks = []")
      case True
      with mp(1) have "ps = []" by simp
      with True bp assms c show ?thesis by (simp add: index_document_def upsert_Nil)
    next
      case False
      then have ne: "ps \<noteq> []" using mp(1) by auto
      have ids: "\<forall>p \<in> set ps. \<not> is_uuid (point_id p)"
      proof
        fix p assume "p \<in> set ps"
        then have "point_id p \<in> set (map point_id ps)" by simp
        then obtain i where "point_id p = d @ lit ''_chunk_'' @ str_nat i"
          unfolding mp(2) by auto
        then show "\<not> is_uuid (point_id p)" by (simp add: chunk_id_not_uuid)
      qed
      have "point_id (hd ps) = d @ lit ''_chunk_'' @ str_nat 0"
        using mp(3)[of 0] False ne by (simp add: hd_conv_nth)
      then have h: "point_id (hd ps) = d @ lit ''_chunk_0''"
        by (simp add: str_nat.simps lit_def)
      have up: "qdrant_upsert ps w2 =
          (Inl (ValueError (lit ''Point id '' @ d @ lit ''_chunk_0''
                 @ lit '' is not a valid UUID'')), w2)"
        using upsert_refuses[OF c ne ids] by (simp only: h append_assoc)
      show ?thesis
        by (simp add: index_document_def assms bp up False)
    qed
  qed
qed

section \<open>Re-indexing through the admin route\<close>

lemma perform_indexing_continues:
  "index_one E w md_file = (Inl e, w') \<Longrightarrow>
   perform_indexing_loop E (md_file # rest) total_chunks indexed_files w =
   perform_indexing_loop E rest total_chunks indexed_files w'"
  by simp

lemma perform_indexing_counts:
  "index_one E w md_file = (Inr n, w') \<Longrightarrow>
   perform_indexing_loop E (md_file # rest) total_chunks indexed_files w =
   perform_indexing_loop E rest (total_chunks + n) (indexed_files @ [(file_name md_file, n)]) w'"
  by simp

lemma reindex_failed_count_zero:
  "reindex_content E w request = (Inr response, w') \<Longrightarrow> failed_count response = 0"
  by (auto simp: reindex_content_def reindex_content_try_def
      split: prod.splits sum.splits option.splits if_splits)

text \<open>
  C2 on the code. Take three files of which the first and the third are indexed and the
  second fails, for whatever reason. The foreground re-index skips the second and goes
  on: its report counts two indexed files and the chunks of those two, and a failed count
  of 0, where one file failed: the route writes the constant 0 there and counts no
  failure.
\<close>

theorem reindex_reports_no_failure:
  assumes "rglob_md E (book_docs_path request) = Some [f1, f2, f3]"
    and "\<not> req_background request"
    and "index_one E w f1 = (Inr n1, w1)"
    and "index_one E w1 f2 = (Inl e, w2)"
    and "index_one E w2 f3 = (Inr n3, w3)"
  shows "reindex_content E w request =
    (Inr \<lparr>status = lit ''completed'',
          message = lit ''Successfully indexed '' @ str_nat 2 @ lit '' files with ''
            @ str_nat (n1 + n3) @ lit '' chunks'',
          indexed_count = 2, failed_count = 0,
          details = Some [(file_name f1, n1), (file_name f3, n3)]\<rparr>, w3)"
proof -
  have "perform_indexing E w [f1, f2, f3] =
      ((n1 + n3, [(file_name f1, n1), (file_name f3, n3)]), w3)"
    by (simp add: perform_indexing_def assms(3-5))
  then show ?thesis
    using assms(1,2)
    by (simp add: reindex_content_def reindex_content_try_def numeral_2_eq_2)
qed

lemma chunk_text_alpha: "chunk_text (lit ''alpha beta'') 500 100 = Inr [lit ''alpha beta'']"
  by (simp add: chunk_text_def py_range_def eval_str)

lemma chunk_text_gamma: "chunk_text (lit ''gamma'') 500 100 = Inr [lit ''gamma'']"
  by (simp add: chunk_text_def py_range_def eval_str)

lemma chunk_text_blank:
  "chunk_text [] 500 100 = Inr []" "chunk_text (lit ''  '') 500 100 = Inr []"
  by (simp_all add: chunk_text_def py_range_def eval_str)

lemma example_env_sel:
  "rglob_md example_env (lit ''../book/docs'') = Some example_files"
  "str_title example_env = (\<lambda>s. s)"
  "str_lower example_env = (\<lambda>s. s)"
  "embeddings_create example_env = (\<lambda>t. Inr [1])"
  by (simp_all add: example_env_def)

lemma index_document_example_refused:
  assumes "chunk_text content 500 100 = Inr [c]"
  shows "fst (index_document example_env w doc_id title content url chapter) =
    Inl (ValueError (lit ''Point id '' @ doc_id @ lit ''_chunk_0'' @ lit '' is not a valid UUID''))"
  by (simp add: index_document_outcome[OF assms] create_embedding_def example_env_sel
      utcnow_def)

lemma index_document_example_chunkless:
  assumes "chunk_text content 500 100 = Inr []"
  shows "index_document example_env w doc_id title content url chapter =
    (Inr 0, ensure_collection_exists w)"
  by (simp add: index_document_outcome[OF assms])

lemma index_one_chunkless:
  "index_one E w bad_file = (Inl (UnicodeDecodeError (lit ''invalid start byte'')), w)"
  "index_one E w empty_file = (Inr 0, ensure_collection_exists w)"
  "index_one E w blank_file = (Inr 0, ensure_collection_exists w)"
  by (simp_all add: index_one_def index_markdown_def bad_file_def empty_file_def blank_file_def
      index_document_outcome chunk_text_blank)

lemma index_one_examples:
  "fst (index_one example_env w intro_file) =
     Inl (ValueError (lit ''Point id intro_chunk_0 is not a valid UUID''))"
  "fst (index_one example_env w usage_file) =
     Inl (ValueError (lit ''Point id usage_chunk_0 is not a valid UUID''))"
  by (simp_all add: index_one_def index_markdown_def intro_file_def usage_file_def
      index_document_example_refused chunk_text_alpha chunk_text_gamma)
     (simp_all add: lit_def)

text \<open>
  C2, at three files of which the second cannot be read and the other two hold no word:
  two files indexed, no chunk, and a failed count of 0.
\<close>

theorem reindex_reports_no_failure_witness:
  "fst (reindex_content
          (example_env\<lparr>rglob_md := (\<lambda>p. Some [empty_file, bad_file, blank_file])\<rparr>)
          empty_world \<lparr>req_docs_path = None, req_background = False\<rparr>) =
   Inr \<lparr>status = lit ''completed'',
        message = lit ''Successfully indexed 2 files with 0 chunks'',
        indexed_count = 2, failed_count = 0,
        details = Some [(lit ''empty.md'', 0), (lit ''blank.md'', 0)]\<rparr>"
proof -
  let ?E = "example_env\<lparr>rglob_md := (\<lambda>p. Some [empty_file, bad_file, blank_file])\<rparr>"
  let ?r = "\<lparr>req_docs_path = None, req_background = False\<rparr>"
  let ?w1 = "ensure_collection_exists empty_world"
  have g: "rglob_md ?E (book_docs_path ?r) = Some [empty_file, bad_file, blank_file]"
    and b: "\<not> req_background ?r"
    by simp_all
  have names: "file_name empty_file = lit ''empty.md''" "file_name blank_file = lit ''blank.md''"
    by (simp_all add: empty_file_def blank_file_def)
  have msg: "lit ''Successfully indexed '' @ str_nat 2 @ lit '' files with ''
            @ str_nat (0 + 0) @ lit '' chunks'' = lit ''Successfully indexed 2 files with 0 chunks''"
    by (simp add: str_nat.simps lit_def)
  show ?thesis
    using reindex_reports_no_failure[OF g b index_one_chunkless(2)[of ?E empty_world]
        index_one_chunkless(1)[of ?E ?w1] index_one_chunkless(3)[of ?E ?w1]]
    by (simp only: names msg fst_conv)
qed

text \<open>
  On the three example files all three fail, the first and the third at the store: no file
  is indexed, and the failed count is 0 all the same.
\<close>

lemma reindex_examples_all_fail:
  "fst (reindex_content example_env empty_world
          \<lparr>req_docs_path = None, req_background = False\<rparr>) =
   Inr \<lparr>status = lit ''completed'',
        message = lit ''Successfully indexed 0 files with 0 chunks'',
        indexed_count = 0, failed_count = 0, details = Some []\<rparr>"
proof -
  obtain e1 w1 where 1: "index_one example_env empty_world intro_file = (Inl e1, w1)"
    using index_one_examples(1)[of empty_world] by (metis fst_conv surj_pair)
  obtain e3 w3 where 3: "index_one example_env w1 usage_file = (Inl e3, w3)"
    using index_one_examples(2)[of w1] by (metis fst_conv surj_pair)
  have "perform_indexing example_env empty_world example_files = ((0, []), w3)"
    by (simp add: perform_indexing_def example_files_def 1 3 index_one_chunkless(1))
  then show ?thesis
    by (simp add: reindex_content_def reindex_content_try_def book_docs_path_def
        example_env_sel)
       (simp add: str_nat.simps lit_def)
qed

section \<open>What index_document stores, and its fixed chunking\<close>

lemma build_points_collection:
  "collection (snd (build_points E d t u c i chunks points w)) = collection w"
  by (induction chunks arbitrary: i points w)
     (simp_all add: utcnow_def Let_def split: sum.splits)

lemma build_points_total:
  "(\<forall>chunk. \<exists>v. embeddings_create E chunk = Inr v) \<Longrightarrow>
   \<exists>ps w'. build_points E d t u c i chunks points w = (Inr ps, w')"
proof (induction chunks arbitrary: i points w)
  case Nil
  then show ?case by simp
next
  case (Cons chunk rest)
  from Cons.prems obtain v where v: "embeddings_create E chunk = Inr v" by blast
  from Cons.IH[OF Cons.prems] show ?case
    by (simp add: create_embedding_def v utcnow_def)
qed

text \<open>
  \<open>index_document\<close> returns a count only for a document of no chunk.
\<close>

lemma index_document_success_chunkless:
  assumes "index_document E w d t content u ch = (Inr n, w')"
  shows "n = 0 \<and> chunk_text content 500 100 = Inr []"
proof -
  obtain chunks where ch: "chunk_text content 500 100 = Inr chunks"
    using chunk_text_default by blast
  from assms show ?thesis
    unfolding index_document_outcome[OF ch]
    by (auto simp: ch split: prod.splits sum.splits if_splits)
qed

text \<open>
  C6 on the code. \<open>index_document\<close> gives the chunk of index \<open>i\<close> the id
  \<open>doc_id_chunk_i\<close>, from 0, as the claim says; but that id is a string that is no UUID,
  and the store refuses it. So for every document with a word \<open>index_document\<close> raises:
  it returns no count and stores no point, the first time and every time. When the
  embedding calls all succeed, the exception is the store's refusal of the first id.
\<close>

theorem index_document_ids_refused:
  assumes "split content \<noteq> []"
  shows "\<exists>e w'. index_document E w doc_id title content url chapter = (Inl e, w')
      \<and> collection w' = Some (case collection w of None \<Rightarrow> [] | Some c \<Rightarrow> c)
      \<and> ((\<forall>chunk. \<exists>v. embeddings_create E chunk = Inr v) \<longrightarrow>
           e = ValueError (lit ''Point id '' @ doc_id @ lit ''_chunk_0''
                 @ lit '' is not a valid UUID''))"
proof -
  from chunk_text_default_nonempty[OF assms] obtain chunks where
    ch: "chunk_text content 500 100 = Inr chunks" and ne: "chunks \<noteq> []" by blast
  let ?w1 = "ensure_collection_exists w"
  let ?bp = "build_points E doc_id title url chapter 0 chunks [] ?w1"
  have col: "collection (snd ?bp) = Some (case collection w of None \<Rightarrow> [] | Some c \<Rightarrow> c)"
    by (simp add: build_points_collection ensure_collection_exists_def split: option.splits)
  show ?thesis
  proof (cases ?bp)
    case (Pair r w2)
    with col have c2: "collection w2 = Some (case collection w of None \<Rightarrow> [] | Some c \<Rightarrow> c)"
      by simp
    show ?thesis
    proof (cases r)
      case (Inl e)
      have "\<not> (\<forall>chunk. \<exists>v. embeddings_create E chunk = Inr v)"
        using build_points_total[of E doc_id title url "chapter" 0 chunks "[]" ?w1] Pair Inl
        by auto
      with Pair Inl c2 show ?thesis
        by (auto simp: index_document_outcome[OF ch])
    next
      case (Inr ps)
      with Pair ne c2 show ?thesis
        by (simp add: index_document_outcome[OF ch])
    qed
  qed
qed

text \<open>C6, at the example document indexed into the empty store.\<close>

theorem index_document_ids_refused_witness:
  "split (lit ''alpha beta'') \<noteq> []
   \<and> (\<exists>w'. index_document example_env empty_world (lit ''intro'') (lit ''Intro'')
         (lit ''alpha beta'') (lit ''/intro'') None =
        (Inl (ValueError (lit ''Point id intro_chunk_0 is not a valid UUID'')), w')
      \<and> collection w' = Some [])"
proof -
  have s: "split (lit ''alpha beta'') \<noteq> []"
    by (simp add: split_def lit_def isspace_def)
  have e: "\<forall>chunk. \<exists>v. embeddings_create example_env chunk = Inr v"
    by (simp add: example_env_sel)
  have m: "lit ''Point id '' @ lit ''intro'' @ lit ''_chunk_0'' @ lit '' is not a valid UUID''
      = lit ''Point id intro_chunk_0 is not a valid UUID''"
    by (simp add: lit_def)
  from index_document_ids_refused[OF s, of example_env empty_world "lit ''intro''" "lit ''Intro''"
      "lit ''/intro''" None] e
  obtain err w' where
    "index_document example_env empty_world (lit ''intro'') (lit ''Intro'')
         (lit ''alpha beta'') (lit ''/intro'') None = (Inl err, w')"
    "collection w' = Some (case collection empty_world of None \<Rightarrow> [] | Some c \<Rightarrow> c)"
    "err = ValueError (lit ''Point id '' @ lit ''intro'' @ lit ''_chunk_0''
                 @ lit '' is not a valid UUID'')"
    by blast
  then have "index_document example_env empty_world (lit ''intro'') (lit ''Intro'')
         (lit ''alpha beta'') (lit ''/intro'') None =
        (Inl (ValueError (lit ''Point id intro_chunk_0 is not a valid UUID'')), w')
      \<and> collection w' = Some []"
    by (simp add: m empty_world_def)
  with s show ?thesis by blast
qed

lemma build_points_settings:
  "build_points (E\<lparr>env_settings := s\<rparr>) d t u c i chunks points w =
   build_points E d t u c i chunks points w"
  by (induction chunks arbitrary: i points w)
     (simp_all add: create_embedding_def make_point_def Let_def utcnow_def split: sum.splits)

text \<open>
  C9. \<open>index_document\<close> takes no chunking parameter and reads no setting: its result is
  the same under every value of the settings. The chunks are those of \<open>chunk_text\<close> with
  chunk size 500 and overlap 100: the count returned is their number, the points handed
  to the store carry their texts in order under the ids of their indices, and what is
  stored under the id of index \<open>i\<close> is the \<open>i\<close>-th of them.
\<close>

theorem index_document_fixed_chunking:
  "index_document (E\<lparr>env_settings := s\<rparr>) w doc_id title content url chapter =
     index_document E w doc_id title content url chapter
   \<and> (\<exists>chunks. chunk_text content 500 100 = Inr chunks
        \<and> (\<forall>n w'. index_document E w doc_id title content url chapter = (Inr n, w') \<longrightarrow>
              n = length chunks
            \<and> (\<exists>c. collection w' = Some c
                \<and> (\<forall>i<n. \<exists>p. map_of c (doc_id @ lit ''_chunk_'' @ str_nat i) = Some p
                      \<and> p_text (point_payload p) = Some (chunks ! i))))
        \<and> index_document E w doc_id title content url chapter =
            (case build_points E doc_id title url chapter 0 chunks []
                    (ensure_collection_exists w) of
               (Inl e, w2) \<Rightarrow> (Inl e, w2)
             | (Inr points, w2) \<Rightarrow>
                 (case qdrant_upsert points w2 of
                    (Inl e, w3) \<Rightarrow> (Inl e, w3)
                  | (Inr u, w3) \<Rightarrow> (Inr (length chunks), w3)))
        \<and> (\<forall>points w2.
              build_points E doc_id title url chapter 0 chunks []
                (ensure_collection_exists w) = (Inr points, w2) \<longrightarrow>
              map (\<lambda>p. p_text (point_payload p)) points = map Some chunks
            \<and> map point_id points =
                map (\<lambda>i. doc_id @ lit ''_chunk_'' @ str_nat i) [0..<length chunks]))"
proof -
  have a: "index_document (E\<lparr>env_settings := s\<rparr>) w doc_id title content url chapter =
     index_document E w doc_id title content url chapter"
    by (simp add: index_document_def build_points_settings Let_def split: sum.splits)
  obtain chunks where ch: "chunk_text content 500 100 = Inr chunks"
    using chunk_text_default by blast
  have b: "\<forall>n w'. index_document E w doc_id title content url chapter = (Inr n, w') \<longrightarrow>
              n = length chunks
            \<and> (\<exists>c. collection w' = Some c
                \<and> (\<forall>i<n. \<exists>p. map_of c (doc_id @ lit ''_chunk_'' @ str_nat i) = Some p
                      \<and> p_text (point_payload p) = Some (chunks ! i)))"
  proof (intro allI impI)
    fix n w' assume r: "index_document E w doc_id title content url chapter = (Inr n, w')"
    from index_document_stored[OF r] ch obtain c where
      "n = length chunks" "collection w' = Some c"
      "\<forall>i<n. \<exists>p. map_of c (doc_id @ lit ''_chunk_'' @ str_nat i) = Some p
           \<and> point_id p = doc_id @ lit ''_chunk_'' @ str_nat i
           \<and> p_chunk_index (point_payload p) = Some (int i)
           \<and> p_text (point_payload p) = Some (chunks ! i)"
      by auto
    then show "n = length chunks
            \<and> (\<exists>c. collection w' = Some c
                \<and> (\<forall>i<n. \<exists>p. map_of c (doc_id @ lit ''_chunk_'' @ str_nat i) = Some p
                      \<and> p_text (point_payload p) = Some (chunks ! i)))"
      by blast
  qed
  have c: "index_document E w doc_id title content url chapter =
            (case build_points E doc_id title url chapter 0 chunks []
                    (ensure_collection_exists w) of
               (Inl e, w2) \<Rightarrow> (Inl e, w2)
             | (Inr points, w2) \<Rightarrow>
                 (case qdrant_upsert points w2 of
                    (Inl e, w3) \<Rightarrow> (Inl e, w3)
                  | (Inr u, w3) \<Rightarrow> (Inr (length chunks), w3)))"
    by (simp add: index_document_def ch)
  have d: "\<forall>points w2.
              build_points E doc_id title url chapter 0 chunks []
                (ensure_collection_exists w) = (Inr points, w2) \<longrightarrow>
              map (\<lambda>p. p_text (point_payload p)) points = map Some chunks
            \<and> map point_id points =
                map (\<lambda>i. doc_id @ lit ''_chunk_'' @ str_nat i) [0..<length chunks]"
  proof (intro allI impI)
    fix points w2
    assume bp: "build_points E doc_id title url chapter 0 chunks []
                (ensure_collection_exists w) = (Inr points, w2)"
    from build_points_result[OF bp]
    have l: "list_all2 (made E doc_id title url chapter) points (zip [0..<length chunks] chunks)"
      by auto
    note mp = made_points[OF l]
    have "map (\<lambda>p. p_text (point_payload p)) points = map Some chunks"
    proof (rule nth_equalityI)
      show "length (map (\<lambda>p. p_text (point_payload p)) points) = length (map Some chunks)"
        using mp(1) by simp
    next
      fix i assume "i < length (map (\<lambda>p. p_text (point_payload p)) points)"
      then have i: "i < length chunks" using mp(1) by simp
      then show "map (\<lambda>p. p_text (point_payload p)) points ! i = map Some chunks ! i"
        using mp(3)[of i] mp(1) by simp
    qed
    with mp(2) show "map (\<lambda>p. p_text (point_payload p)) points = map Some chunks
            \<and> map point_id points =
                map (\<lambda>i. doc_id @ lit ''_chunk_'' @ str_nat i) [0..<length chunks]"
      by simp
  qed
  from a ch b c d show ?thesis by blast
qed

text \<open>
  The difference shows: a document of 501 words is cut into two chunks, and would be cut
  into one under the configured 800 and 100.
\<close>

lemma split_replicate:
  "split (join (lit '' '') (replicate n (lit ''a''))) = replicate n (lit ''a'')"
  by (rule split_join) (simp add: list_all_iff is_word_def lit_def isspace_def)

lemma settings_would_chunk_differently:
  "\<exists>content a b. chunk_text content 500 100 = Inr a
     \<and> chunk_text content (cfg_chunk_size default_settings)
          (cfg_chunk_overlap default_settings) = Inr b
     \<and> length a = 2 \<and> length b = 1"
proof -
  let ?doc = "join (lit '' '') (replicate 501 (lit ''a''))"
  have n: "length (split ?doc) = 501" by (simp only: split_replicate length_replicate)
  have a: "\<exists>a. chunk_text ?doc 500 100 = Inr a \<and> length a = 2"
    using chunk_text_windows[of 100 500 ?doc] by (simp add: n)
  have b: "\<exists>b. chunk_text ?doc 800 100 = Inr b \<and> length b = 1"
    using chunk_text_windows[of 100 800 ?doc] by (simp add: n)
  from a b show ?thesis by (auto simp: default_settings_def)
qed

text \<open>C9, at the example document under settings of chunk size 1 and overlap 0.\<close>

theorem index_document_fixed_chunking_witness:
  "index_document (example_env\<lparr>env_settings := \<lparr>cfg_chunk_size = 1, cfg_chunk_overlap = 0\<rparr>\<rparr>)
      empty_world (lit ''intro'') (lit ''Intro'') (lit ''alpha beta'') (lit ''/intro'') None =
   index_document example_env empty_world (lit ''intro'') (lit ''Intro'') (lit ''alpha beta'')
      (lit ''/intro'') None
   \<and> (\<exists>points w2.
         build_points example_env (lit ''intro'') (lit ''Intro'') (lit ''/intro'') None 0
           [lit ''alpha beta''] [] (ensure_collection_exists empty_world) = (Inr points, w2)
       \<and> map (\<lambda>p. p_text (point_payload p)) points = [Some (lit ''alpha beta'')]
       \<and> map point_id points = [lit ''intro_chunk_0''])"
proof -
  note t = index_document_fixed_chunking[where E = example_env
      and s = "\<lparr>cfg_chunk_size = 1, cfg_chunk_overlap = 0\<rparr>" and w = empty_world
      and doc_id = "lit ''intro''" and title = "lit ''Intro''"
      and content = "lit ''alpha beta''" and url = "lit ''/intro''", of None]
  from t have a: "index_document
      (example_env\<lparr>env_settings := \<lparr>cfg_chunk_size = 1, cfg_chunk_overlap = 0\<rparr>\<rparr>)
      empty_world (lit ''intro'') (lit ''Intro'') (lit ''alpha beta'') (lit ''/intro'') None =
   index_document example_env empty_world (lit ''intro'') (lit ''Intro'') (lit ''alpha beta'')
      (lit ''/intro'') None"
    by blast
  from t chunk_text_alpha have d: "\<forall>points w2.
        build_points example_env (lit ''intro'') (lit ''Intro'') (lit ''/intro'') None 0
          [lit ''alpha beta''] [] (ensure_collection_exists empty_world) = (Inr points, w2) \<longrightarrow>
        map (\<lambda>p. p_text (point_payload p)) points = map Some [lit ''alpha beta'']
      \<and> map point_id points =
          map (\<lambda>i. lit ''intro'' @ lit ''_chunk_'' @ str_nat i) [0..<length [lit ''alpha beta'']]"
    by auto
  have "\<exists>points w2.
    build_points example_env (lit ''intro'') (lit ''Intro'') (lit ''/intro'') None 0
       [lit ''alpha beta''] [] (ensure_collection_exists empty_world) = (Inr points, w2)"
    by (rule build_points_total) (simp add: example_env_sel)
  then obtain points w2 where bp:
    "build_points example_env (lit ''intro'') (lit ''Intro'') (lit ''/intro'') None 0
       [lit ''alpha beta''] [] (ensure_collection_exists empty_world) = (Inr points, w2)"
    by blast
  from d bp have m: "map (\<lambda>p. p_text (point_payload p)) points = [Some (lit ''alpha beta'')]"
    "map point_id points = [lit ''intro_chunk_0'']"
    by (simp_all add: str_nat.simps lit_def)
  show ?thesis
    by (intro conjI exI[of _ points] exI[of _ w2]) (rule a, rule bp, rule m(1), rule m(2))
qed

section \<open>Re-indexing through the script\<close>

text \<open>
  C10. In the script's loop a readable file whose stripped content has fewer than 100
  characters changes nothing but the printed lines: the chunk total, the count of indexed
  files and the store stay as they were, and the line printed is the skip, not an error.
  The route's loop has no such test: it hands the same file to the indexing lines, and
  counts it when they succeed.
\<close>

theorem script_skips_short_files:
  assumes "file_read md_file = Inr content" "length (strip content) < 100"
  shows "index_book_loop E (md_file # rest) total_chunks indexed_files printed w =
         index_book_loop E rest total_chunks indexed_files
           (printed @ [Processing (file_name md_file), SkippedTooShort]) w
       \<and> index_one E w md_file = index_markdown E w md_file content
       \<and> perform_indexing_loop E (md_file # rest) total_chunks indexed w =
         (case index_markdown E w md_file content of
            (Inl e, w') \<Rightarrow> perform_indexing_loop E rest total_chunks indexed w'
          | (Inr n, w') \<Rightarrow>
              perform_indexing_loop E rest (total_chunks + n)
                (indexed @ [(file_name md_file, n)]) w')"
  using assms by (simp add: index_one_def)

text \<open>
  C10, at the example file of two spaces: skipped by the script and not counted, handed
  to the indexing lines by the route and counted there with no chunk.
\<close>

theorem script_skips_short_files_witness:
  "file_read blank_file = Inr (lit ''  '') \<and> length (strip (lit ''  '')) < 100
   \<and> index_book_loop example_env [blank_file] 0 0 [] empty_world =
       ((0, 0, [Processing (lit ''blank.md''), SkippedTooShort]), empty_world)
   \<and> fst (perform_indexing_loop example_env [blank_file] 0 [] empty_world) =
       (0, [(lit ''blank.md'', 0)])"
proof -
  have a: "file_read blank_file = Inr (lit ''  '')" by (simp add: blank_file_def)
  have b: "length (strip (lit ''  '')) < 100" by (simp add: strip_def lit_def isspace_def)
  have n: "file_name blank_file = lit ''blank.md''" by (simp add: blank_file_def)
  note t = script_skips_short_files[OF a b, of example_env "[]" 0 _ _ empty_world]
  have s: "index_book_loop example_env [blank_file] 0 0 [] empty_world =
       ((0, 0, [Processing (lit ''blank.md''), SkippedTooShort]), empty_world)"
    using t[of 0 "[]" "[]"] by (simp add: n)
  have i: "index_markdown example_env empty_world blank_file (lit ''  '') =
      (Inr 0, ensure_collection_exists empty_world)"
    using index_one_chunkless(3)[of example_env empty_world] t[of 0 "[]" "[]"] by simp
  have r: "fst (perform_indexing_loop example_env [blank_file] 0 [] empty_world) =
       (0, [(lit ''blank.md'', 0)])"
    using t[of 0 "[]" "[]"] by (simp add: i n)
  show ?thesis using a b s r by simp
qed

lemma script_on_examples:
  "fst (index_book_content example_env empty_world (lit ''../book/docs'')) =
     Complete 0 3 0
       [Processing (lit ''intro.md''), SkippedTooShort,
        Processing (lit ''bad.md''), ErrorLine (lit ''invalid start byte''),
        Processing (lit ''usage.md''), SkippedTooShort]"
proof -
  have short: "length (strip (lit ''alpha beta'')) < 100" "length (strip (lit ''gamma'')) < 100"
    by (simp_all add: strip_def lit_def isspace_def)
  show ?thesis
    by (simp add: index_book_content_def example_env_sel example_files_def
        intro_file_def bad_file_def usage_file_def short)
qed

section \<open>Retrieval\<close>

lemma format_results_scores:
  "format_results results acc = Inr res \<Longrightarrow>
   map c_score res = map c_score acc @ map sp_score results"
proof (induction results arbitrary: acc)
  case Nil
  then show ?case by simp
next
  case (Cons r results)
  then obtain x where x: "format_result r = Inr x"
    and rest: "format_results results (acc @ [x]) = Inr res"
    by (auto split: sum.splits)
  from x have "c_score x = sp_score r"
    by (auto simp: format_result_def split: sum.splits)
  with Cons.IH[OF rest] show ?case by simp
qed

text \<open>
  C7. \<open>search_similar\<close> returns the store's hits one for one, in the store's order, each
  with the store's score. So when the store's answer to the search call is in descending
  order of score, has at most \<open>limit\<close> hits and none below the threshold, the same
  holds of the list \<open>search_similar\<close> returns.
\<close>

theorem search_similar_ranked:
  assumes "search_similar E w query limit score_threshold chapter_filter = (Inr res, w')"
    and "\<And>c v results.
           qdrant_search E c v limit score_threshold (search_filter chapter_filter) = Inr results
           \<Longrightarrow> honours_contract results limit score_threshold"
  shows "sorted_wrt (\<lambda>a b. b \<le> a) (map c_score res)
       \<and> int (length res) \<le> limit
       \<and> list_all (\<lambda>r. score_threshold \<le> c_score r) res"
proof -
  from assms(1) obtain c v results
    where s: "qdrant_search E c v limit score_threshold (search_filter chapter_filter) = Inr results"
      and f: "format_results results [] = Inr res"
    by (auto simp: search_similar_def Let_def split: sum.splits)
  have m: "map c_score res = map sp_score results"
    using format_results_scores[OF f] by simp
  then have l: "length res = length results"
    by (metis length_map)
  have h: "honours_contract results limit score_threshold" using assms(2)[OF s] .
  have "list_all (\<lambda>x. score_threshold \<le> x) (map sp_score results)"
    using h by (simp add: honours_contract_def list_all_iff)
  then have "list_all (\<lambda>x. score_threshold \<le> x) (map c_score res)"
    by (simp only: m)
  then have "list_all (\<lambda>r. score_threshold \<le> c_score r) res"
    by (simp add: list_all_iff)
  then show ?thesis using h m l by (simp add: honours_contract_def)
qed

text \<open>C7, at a store that answers with two hits of scores 0.9 and 0.7.\<close>

theorem search_similar_ranked_witness:
  "\<exists>res w'. search_similar (example_env\<lparr>qdrant_search := (\<lambda>c v l t f. Inr example_hits)\<rparr>)
       empty_world (lit ''What is it?'') 5 0.5 None = (Inr res, w')
     \<and> map c_score res = [0.9, 0.7]
     \<and> sorted_wrt (\<lambda>a b. b \<le> a) (map c_score res)
     \<and> int (length res) \<le> 5
     \<and> list_all (\<lambda>r. 0.5 \<le> c_score r) res"
proof -
  let ?E = "example_env\<lparr>qdrant_search := (\<lambda>c v l t f. Inr example_hits)\<rparr>"
  have c: "honours_contract example_hits 5 0.5"
    by (simp add: honours_contract_def example_hits_def)
  obtain res w' where r: "search_similar ?E empty_world (lit ''What is it?'') 5 0.5 None = (Inr res, w')"
    and m: "map c_score res = [0.9, 0.7]"
    by (simp add: search_similar_def create_embedding_def example_env_def example_hits_def
        format_result_def payload_get_def)
  have p: "sorted_wrt (\<lambda>a b. b \<le> a) (map c_score res)
       \<and> int (length res) \<le> 5
       \<and> list_all (\<lambda>r. 0.5 \<le> c_score r) res"
    using search_similar_ranked[of ?E empty_world "lit ''What is it?''" 5 "0.5" None res w', OF r]
      c by simp
  show ?thesis
    by (rule exI[of _ res], rule exI[of _ w']) (use r m p in simp)
qed

section \<open>The chat routes\<close>


lemma str_int_404: "str_int 404 = lit ''404''"
  by (simp add: str_int_def str_nat.simps lit_def)

text \<open>
  C4 on the code. When retrieval returns no chunk, the body of \<open>chat\<close> raises the 404
  exception inside its own \<open>try\<close> block; the handler \<open>except Exception\<close> catches it and
  raises status 500 with the 404 text in its detail. The caller receives 500, not 404.
\<close>

theorem chat_not_found_is_500:
  assumes "search_similar E w (req_question request) (req_top_k request) 0.5
             (req_chapter_filter request) = (Inr [], w1)"
  shows "chat E w request =
    (Inl (HTTPException 500
       (lit ''Error processing request: 404: No relevant content found. The book may not be indexed yet.'')),
     w1)"
  using assms by (simp add: chat_def chat_try_def str_int_404 lit_def)

lemma search_empty_world:
  "search_similar example_env empty_world q k t f = (Inr [], \<lparr>collection = Some [], clock = 0\<rparr>)"
  by (simp add: search_similar_def ensure_collection_exists_def empty_world_def
      create_embedding_def example_env_def example_search_def)

text \<open>C4, at a question put to the empty store.\<close>

theorem chat_not_found_is_500_witness:
  "chat example_env empty_world example_request =
     (Inl (HTTPException 500
       (lit ''Error processing request: 404: No relevant content found. The book may not be indexed yet.'')),
      \<lparr>collection = Some [], clock = 0\<rparr>)"
  by (rule chat_not_found_is_500) (rule search_empty_world)

lemma accepts_tokens: "accepts Streaming (map TokenEvent ts @ es) = accepts Streaming es"
  by (induction ts) simp_all

text \<open>
  C5. Whatever the providers do, the events \<open>generate\<close> yields are tokens, then at most
  one sources event, then at most one done event, and an error event is the last event.
\<close>

theorem generate_stream_order: "stream_order_ok (fst (generate E w request))"
  by (auto simp: generate_def stream_order_ok_def accepts_tokens
      split: prod.splits sum.splits option.splits)

lemma generate_shape:
  "\<exists>ts m srcs. fst (generate E w request) = map TokenEvent ts @ [ErrorEvent m]
     \<or> fst (generate E w request) = map TokenEvent ts @ [SourcesEvent srcs, DoneEvent]"
  apply (simp add: generate_def split: prod.splits sum.splits option.splits)
  apply (intro allI impI conjI)
  apply (metis append_Nil list.simps(8))+
  done

text \<open>C5, at a stream that fails after its first fragment.\<close>

theorem generate_stream_order_witness:
  "stream_order_ok (fst (generate
     (example_env\<lparr>completions_stream :=
        (\<lambda>sys prompt. Inr ([[Some (lit ''It'')]], Some (ProviderError (lit ''connection lost''))))\<rparr>)
     example_world example_request))"
  by (rule generate_stream_order)

section \<open>Selected text as pinned context\<close>

lemma context_parts_pinned:
  "context_parts E 0 (all_context selected_text url chunks) =
   context_part E 0 (selected_context selected_text url) # context_parts E (Suc 0) chunks"
  by (simp add: all_context_def)

text \<open>
  C8. The context list of a selected-text request has the pinned entry at position 0 and
  every retrieved chunk one position later, whatever the scores of the retrieved chunks;
  the pinned entry has the score 1.0 and the title \<open>Selected Text\<close>. When the route
  answers, the prompt the model completed was built from that list, pinned entry first,
  and the pinned entry is the first source of the response.
\<close>

theorem selected_text_pinned_first:
  "all_context selected_text url chunks ! 0 = selected_context selected_text url
   \<and> (\<forall>i<length chunks. all_context selected_text url chunks ! Suc i = chunks ! i)
   \<and> c_score (selected_context selected_text url) = 1
   \<and> c_title (selected_context selected_text url) = lit ''Selected Text''
   \<and> (\<forall>response w'.
        chat_with_selected_text E w question selected_text url = (Inr response, w') \<longrightarrow>
        (\<exists>retrieved w1.
           search_similar E w question 2 0.5 None = (Inr retrieved, w1)
         \<and> completions_create E (system_prompt E)
              (create_rag_prompt E question (selected_context selected_text url # retrieved)) =
             Inr (answer response)
         \<and> sources response =
             \<lparr>page_title = lit ''Selected Text'', page_url = url,
              section_name = lit ''User Selection'', relevance_score = 1\<rparr>
             # map (\<lambda>c. to_source (source_of c)) retrieved))"
proof (intro conjI allI impI)
  fix response w'
  assume a: "chat_with_selected_text E w question selected_text url = (Inr response, w')"
  then obtain retrieved w1 result
    where s: "search_similar E w question 2 0.5 None = (Inr retrieved, w1)"
      and g: "generate_response_with_metadata E w1 question
                (all_context selected_text url retrieved) = (Inr result, w')"
      and r: "response = \<lparr>answer = r_answer result, sources = map to_source (r_sources result)\<rparr>"
    by (auto simp: chat_with_selected_text_def chat_with_selected_text_try_def
        split: prod.splits sum.splits)
  from g have c: "completions_create E (system_prompt E)
        (create_rag_prompt E question (all_context selected_text url retrieved)) =
        Inr (r_answer result)"
    and src: "r_sources result = map source_of (all_context selected_text url retrieved)"
    by (auto simp: generate_response_with_metadata_def generate_response_def Let_def utcnow_def
        split: sum.splits)
  have "sources response =
      \<lparr>page_title = lit ''Selected Text'', page_url = url,
       section_name = lit ''User Selection'', relevance_score = 1\<rparr>
      # map (\<lambda>c. to_source (source_of c)) retrieved"
    by (simp add: r src all_context_def selected_context_def to_source_def source_of_def)
  with s c r show "\<exists>retrieved w1.
           search_similar E w question 2 0.5 None = (Inr retrieved, w1)
         \<and> completions_create E (system_prompt E)
              (create_rag_prompt E question (selected_context selected_text url # retrieved)) =
             Inr (answer response)
         \<and> sources response =
             \<lparr>page_title = lit ''Selected Text'', page_url = url,
              section_name = lit ''User Selection'', relevance_score = 1\<rparr>
             # map (\<lambda>c. to_source (source_of c)) retrieved"
    by (intro exI[of _ retrieved] exI[of _ w1]) (simp add: all_context_def)
qed (simp_all add: all_context_def selected_context_def)

lemma search_example_world:
  "\<exists>r. search_similar example_env example_world q 2 0.5 None = (Inr [r], example_world)
     \<and> c_score r = 0.9 \<and> c_title r = lit ''Intro''"
  by (simp add: search_similar_def ensure_collection_exists_def example_world_def
      create_embedding_def example_env_def example_search_def format_result_def
      payload_get_def make_point_def search_filter_def)

text \<open>C8, at a selection put to the store that holds one chunk.\<close>

theorem selected_text_pinned_first_witness:
  "\<exists>response w'. chat_with_selected_text example_env example_world (lit ''What is it?'')
        (lit ''beta'') (lit ''/intro'') = (Inr response, w')
     \<and> map page_title (sources response) = [lit ''Selected Text'', lit ''Intro'']
     \<and> map relevance_score (sources response) = [1, 0.9]"
proof -
  obtain r where r: "search_similar example_env example_world (lit ''What is it?'') 2 0.5 None
      = (Inr [r], example_world)" and v: "c_score r = 0.9" "c_title r = lit ''Intro''"
    using search_example_world by blast
  obtain response w' where c: "chat_with_selected_text example_env example_world
       (lit ''What is it?'') (lit ''beta'') (lit ''/intro'') = (Inr response, w')"
    using r
    by (simp add: chat_with_selected_text_def chat_with_selected_text_try_def
        generate_response_with_metadata_def generate_response_def Let_def utcnow_def
        example_env_def)
  from selected_text_pinned_first[of "lit ''beta''" "lit ''/intro''" "[]" example_env example_world
      "lit ''What is it?''"] c
  obtain retrieved w1 where
    s: "search_similar example_env example_world (lit ''What is it?'') 2 0.5 None
         = (Inr retrieved, w1)"
    and src: "sources response =
       \<lparr>page_title = lit ''Selected Text'', page_url = lit ''/intro'',
        section_name = lit ''User Selection'', relevance_score = 1\<rparr>
       # map (\<lambda>c. to_source (source_of c)) retrieved"
    by blast
  from r s have "retrieved = [r]" by simp
  with src v have t: "map page_title (sources response) = [lit ''Selected Text'', lit ''Intro'']"
    "map relevance_score (sources response) = [1, 0.9]"
    by (simp_all add: to_source_def source_of_def)
  show ?thesis
    by (rule exI[of _ response], rule exI[of _ w']) (use c t in simp)
qed

end
